theory Spec2Isabelle
  imports Complex_Main "HOL-Library.Log_Nat"
begin

section \<open>JavaScript values\<close>

text \<open>
  The feed parser (fast-xml-parser) hands the fetcher plain JavaScript values. A string is
  the list of its UTF-16 code units; code units below 256 are representable. A number is
  given by the text JavaScript prints for it (\<open>2024\<close>, \<open>0.5\<close>, \<open>1e+21\<close>, \<open>NaN\<close>), which
  tells any two numbers apart but zero and minus zero, both \<open>0\<close>; this program only
  tests numbers for truth and converts them to strings. An array may carry named
  properties beside its elements, as every JavaScript array can. \<open>JNative n\<close> is the built-in function named
  \<open>n\<close>, which property reads reach through the prototype chain.
\<close>

datatype js =
    JUndefined
  | JNull
  | JBool bool
  | JNum string
  | JStr string
  | JArr "js list" "(string \<times> js) list"
  | JObj "(string \<times> js) list"
  | JNative string

datatype js_error = TypeError

text \<open>ToBoolean: what \<open>if (v)\<close>, \<open>!v\<close>, \<open>a && b\<close> and \<open>a || b\<close> test.\<close>

fun truthy :: "js \<Rightarrow> bool" where
  "truthy JUndefined = False"
| "truthy JNull = False"
| "truthy (JBool b) = b"
| "truthy (JNum n) = (n \<noteq> ''0'' \<and> n \<noteq> ''NaN'')"
| "truthy (JStr s) = (s \<noteq> [])"
| "truthy (JArr xs ps) = True"
| "truthy (JObj ps) = True"
| "truthy (JNative n) = True"

text \<open>\<open>a || b\<close>: the left operand when it is truthy, else the right one.\<close>

definition js_or :: "js \<Rightarrow> js \<Rightarrow> js" where
  "js_or a b = (if truthy a then a else b)"

text \<open>
  The members every plain object inherits from \<open>Object.prototype\<close>; \<open>__proto__\<close> reads
  the prototype object itself, an object with no enumerable property of its own.
\<close>

definition object_prototype :: "string \<Rightarrow> js" where
  "object_prototype k =
     (if k = ''constructor'' then JNative ''Object''
      else if k = ''__proto__'' then JObj []
      else if k \<in> set [''toString'', ''toLocaleString'', ''valueOf'', ''hasOwnProperty'',
                         ''isPrototypeOf'', ''propertyIsEnumerable'', ''__defineGetter__'',
                         ''__defineSetter__'', ''__lookupGetter__'', ''__lookupSetter__'']
      then JNative k
      else JUndefined)"

text \<open>
  A property read \<open>v.k\<close> or \<open>v[k]\<close>. Reading a property of \<open>undefined\<close> or \<open>null\<close>
  throws a TypeError. An object yields its own property, else the inherited member. Of
  the names this program reads from parsed feed data, only \<open>link\<close> is a member of
  \<open>String.prototype\<close>, and none is a member of the array, number, boolean or function
  prototypes.
\<close>

fun js_get :: "js \<Rightarrow> string \<Rightarrow> js_error + js" where
  "js_get JUndefined k = Inl TypeError"
| "js_get JNull k = Inl TypeError"
| "js_get (JObj ps) k = Inr (case map_of ps k of Some v \<Rightarrow> v | None \<Rightarrow> object_prototype k)"
| "js_get (JArr xs ps) k = Inr (case map_of ps k of Some v \<Rightarrow> v | None \<Rightarrow> JUndefined)"
| "js_get (JStr s) k = Inr (if k = ''link'' then JNative ''link'' else JUndefined)"
| "js_get (JBool b) k = Inr JUndefined"
| "js_get (JNum n) k = Inr JUndefined"
| "js_get (JNative n) k = Inr JUndefined"

subsection \<open>Strings\<close>

definition code_unit :: "char \<Rightarrow> nat" where
  "code_unit c = of_char c"

text \<open>\<open>String.prototype.toLowerCase\<close> on one code unit below 256.\<close>

definition lower_char :: "char \<Rightarrow> char" where
  "lower_char c =
     (let n = code_unit c in
      if (65 \<le> n \<and> n \<le> 90) \<or> (192 \<le> n \<and> n \<le> 222 \<and> n \<noteq> 215)
      then char_of (n + 32) else c)"

definition toLowerCase :: "string \<Rightarrow> string" where
  "toLowerCase s = map lower_char s"

text \<open>The white space and line terminators \<open>trim\<close> strips, among code units below 256.\<close>

definition is_space :: "char \<Rightarrow> bool" where
  "is_space c = (code_unit c \<in> set [9, 10, 11, 12, 13, 32, 160])"

definition trim :: "string \<Rightarrow> string" where
  "trim s = rev (dropWhile is_space (rev (dropWhile is_space s)))"

text \<open>The character class \<open>[a-zA-Z0-9]\<close>.\<close>

definition is_alnum :: "char \<Rightarrow> bool" where
  "is_alnum c =
     (let n = code_unit c in
      (48 \<le> n \<and> n \<le> 57) \<or> (65 \<le> n \<and> n \<le> 90) \<or> (97 \<le> n \<and> n \<le> 122))"

text \<open>\<open>s.substring(0, n)\<close>.\<close>

definition substring0 :: "nat \<Rightarrow> string \<Rightarrow> string" where
  "substring0 n s = take n s"

section \<open>The fetcher: type normalisation\<close>

text \<open>
  \<open>normalizeJobType\<close> of the job fetcher service. \<open>typeMap\<close> is an object literal, so
  \<open>typeMap[normalized]\<close> is a property read on a plain object.
\<close>

definition typeMap :: js where
  "typeMap = JObj
     [(''full-time'', JStr ''Full-time''),
      (''fulltime'', JStr ''Full-time''),
      (''full time'', JStr ''Full-time''),
      (''part-time'', JStr ''Part-time''),
      (''parttime'', JStr ''Part-time''),
      (''part time'', JStr ''Part-time''),
      (''contract'', JStr ''Contract''),
      (''contractor'', JStr ''Contract''),
      (''freelance'', JStr ''Freelance''),
      (''remote'', JStr ''Remote''),
      (''temporary'', JStr ''Contract'')]"

definition typeMap_keys :: "string list" where
  "typeMap_keys = (case typeMap of JObj ps \<Rightarrow> map fst ps | _ \<Rightarrow> [])"

definition normalizeJobType :: "string \<Rightarrow> js" where
  "normalizeJobType type =
     (let normalized = trim (toLowerCase type) in
      case js_get typeMap normalized of
        Inr v \<Rightarrow> js_or v (JStr ''Other'')
      | Inl e \<Rightarrow> JStr ''Other'')"

section \<open>The fetcher: normalisation and extraction\<close>

subsection \<open>ToString\<close>

definition digit_char :: "nat \<Rightarrow> char" where
  "digit_char d = ''0123456789'' ! d"

function digits :: "nat \<Rightarrow> string" where
  "digits n = (if n < 10 then [digit_char n] else digits (n div 10) @ [digit_char (n mod 10)])"
  by pat_completeness auto
termination
  by (relation "measure id") auto

declare digits.simps [simp del]

definition show_int :: "int \<Rightarrow> string" where
  "show_int i = (if i < 0 then CHR ''-'' # digits (nat (- i)) else digits (nat i))"

definition join_comma :: "string list \<Rightarrow> string" where
  "join_comma ss = concat (case ss of [] \<Rightarrow> [] | x # xs \<Rightarrow> x # map (\<lambda>y. CHR '','' # y) xs)"

text \<open>
  \<open>String(v)\<close> and the conversion a template literal applies. Parsed feed data holds no
  function, so an own \<open>toString\<close> property is not callable and the conversion throws; an
  array converts by joining its elements, \<open>undefined\<close> and \<open>null\<close> elements as the empty
  string, unless an own \<open>join\<close> property hides the method.
\<close>

fun js_String :: "js \<Rightarrow> js_error + string"
  and js_Strings :: "js list \<Rightarrow> js_error + string list" where
  "js_String JUndefined = Inr ''undefined''"
| "js_String JNull = Inr ''null''"
| "js_String (JBool b) = Inr (if b then ''true'' else ''false'')"
| "js_String (JNum n) = Inr n"
| "js_String (JStr s) = Inr s"
| "js_String (JObj ps) =
     (if map_of ps ''toString'' = None then Inr ''[object Object]'' else Inl TypeError)"
| "js_String (JNative n) = Inr (''function '' @ n @ ''() { [native code] }'')"
| "js_String (JArr xs ps) =
     (if map_of ps ''toString'' \<noteq> None then Inl TypeError
      else if map_of ps ''join'' \<noteq> None then Inr ''[object Array]''
      else (case js_Strings xs of Inl e \<Rightarrow> Inl e | Inr ss \<Rightarrow> Inr (join_comma ss)))"
| "js_Strings [] = Inr []"
| "js_Strings (x # xs) =
     (case (if x = JUndefined \<or> x = JNull then Inr [] else js_String x) of
        Inl e \<Rightarrow> Inl e
      | Inr s \<Rightarrow> (case js_Strings xs of Inl e \<Rightarrow> Inl e | Inr ss \<Rightarrow> Inr (s # ss)))"


subsection \<open>normalizeJob\<close>

text \<open>
  \<open>job.k1 || job.k2 || ... || dflt\<close>: the reads run left to right and stop at the first
  truthy value.
\<close>

fun or_chain :: "js \<Rightarrow> string list \<Rightarrow> js \<Rightarrow> js_error + js" where
  "or_chain job [] dflt = Inr dflt"
| "or_chain job (k # ks) dflt =
     (case js_get job k of
        Inl e \<Rightarrow> Inl e
      | Inr v \<Rightarrow> if truthy v then Inr v else or_chain job ks dflt)"

text \<open>\<open>s.replace(/[^a-zA-Z0-9]/g, '-')\<close>: every code unit outside the class becomes a hyphen.\<close>

definition replace_non_alnum :: "string \<Rightarrow> string" where
  "replace_non_alnum s = map (\<lambda>c. if is_alnum c then c else CHR ''-'') s"

text \<open>The object \<open>normalizeJob\<close> returns. \<open>n_type\<close> is whatever \<open>normalizeJobType\<close> returned.\<close>

record normalized_job =
  n_externalId :: string
  n_title :: string
  n_company :: string
  n_category :: string
  n_type :: js
  n_location :: string
  n_description :: string
  n_url :: string
  n_postedAt :: int
  n_updatedAt :: int

text \<open>
  The generated identifier: \<open>job.id || job.guid || job['@_id'] || template\<close>. The template
  literal is evaluated only when the three reads are falsy.
\<close>

definition externalId_of :: "js \<Rightarrow> string \<Rightarrow> js \<Rightarrow> js \<Rightarrow> js_error + js" where
  "externalId_of job sourceUrl title company =
     (case or_chain job [''id'', ''guid'', ''@_id''] JUndefined of
        Inl e \<Rightarrow> Inl e
      | Inr v \<Rightarrow>
          if truthy v then Inr v
          else (case js_String title of
                  Inl e \<Rightarrow> Inl e
                | Inr t \<Rightarrow>
                    (case js_String company of
                       Inl e \<Rightarrow> Inl e
                     | Inr c \<Rightarrow>
                         Inr (JStr (toLowerCase (replace_non_alnum
                                (sourceUrl @ ''-'' @ t @ ''-'' @ c)))))))"

text \<open>\<open>externalId.substring(0, 200)\<close>: only a string has the method.\<close>

definition js_substring0 :: "nat \<Rightarrow> js \<Rightarrow> js_error + string" where
  "js_substring0 n v = (case v of JStr s \<Rightarrow> Inr (substring0 n s) | _ \<Rightarrow> Inl TypeError)"

text \<open>\<open>String(v).substring(0, n)\<close>.\<close>

definition String_substring0 :: "nat \<Rightarrow> js \<Rightarrow> js_error + string" where
  "String_substring0 n v = (case js_String v of Inl e \<Rightarrow> Inl e | Inr s \<Rightarrow> Inr (substring0 n s))"

text \<open>
  The posting date: the current time unless one of the date fields is truthy and parses.
  \<open>parseDate v\<close> is \<open>new Date(v).getTime()\<close>, \<open>None\<close> for an invalid date.
\<close>

definition postedAt_of :: "int \<Rightarrow> (js \<Rightarrow> int option) \<Rightarrow> js \<Rightarrow> js_error + int" where
  "postedAt_of now parseDate job =
     (case or_chain job [''pubDate'', ''published'', ''date'', ''postedDate''] JUndefined of
        Inl e \<Rightarrow> Inl e
      | Inr dateStr \<Rightarrow>
          Inr (if truthy dateStr
               then (case parseDate dateStr of Some t \<Rightarrow> t | None \<Rightarrow> now)
               else now))"

definition bind_err :: "'e + 'a \<Rightarrow> ('a \<Rightarrow> 'e + 'b) \<Rightarrow> 'e + 'b" where
  "bind_err m f = (case m of Inl e \<Rightarrow> Inl e | Inr v \<Rightarrow> f v)"

text \<open>
  \<open>normalizeJob\<close>. \<open>now\<close> is the value of \<open>new Date()\<close> during the call. The statements run
  in the order of the source: the field reads, the identifier, the date, then the
  conversions of the returned object literal.
\<close>

definition normalizeJob ::
  "int \<Rightarrow> (js \<Rightarrow> int option) \<Rightarrow> js \<Rightarrow> string \<Rightarrow> js_error + normalized_job" where
  "normalizeJob now parseDate job sourceUrl =
     bind_err (or_chain job [''title'', ''jobTitle'', ''position'', ''#text'']
                 (JStr ''Untitled Position'')) (\<lambda>title.
     bind_err (or_chain job [''company'', ''companyName'', ''employer'', ''organization'']
                 (JStr ''Unknown Company'')) (\<lambda>company.
     bind_err (or_chain job [''description'', ''summary'', ''content'', ''content:encoded'']
                 (JStr [])) (\<lambda>description.
     bind_err (or_chain job [''link'', ''url'', ''apply_url'', ''guid'']
                 (JStr sourceUrl)) (\<lambda>url.
     bind_err (or_chain job [''location'', ''jobLocation'', ''city'', ''country'']
                 (JStr ''Remote'')) (\<lambda>location.
     bind_err (or_chain job [''category'', ''jobCategory'', ''department'', ''sector'']
                 (JStr ''General'')) (\<lambda>category.
     bind_err (or_chain job [''type'', ''jobType'', ''employmentType'']
                 (JStr ''Other'')) (\<lambda>type.
     bind_err (externalId_of job sourceUrl title company) (\<lambda>externalId.
     bind_err (postedAt_of now parseDate job) (\<lambda>postedAt.
     bind_err (js_substring0 200 externalId) (\<lambda>r_externalId.
     bind_err (String_substring0 200 title) (\<lambda>r_title.
     bind_err (String_substring0 200 company) (\<lambda>r_company.
     bind_err (String_substring0 100 category) (\<lambda>r_category.
     bind_err (js_String type) (\<lambda>type_str.
     bind_err (String_substring0 200 location) (\<lambda>r_location.
     bind_err (String_substring0 5000 description) (\<lambda>r_description.
     bind_err (String_substring0 500 url) (\<lambda>r_url.
       Inr \<lparr> n_externalId = r_externalId,
             n_title = r_title,
             n_company = r_company,
             n_category = r_category,
             n_type = normalizeJobType type_str,
             n_location = r_location,
             n_description = r_description,
             n_url = r_url,
             n_postedAt = postedAt,
             n_updatedAt = now \<rparr>)))))))))))))))))"

subsection \<open>extractJobs\<close>

text \<open>\<open>v.k1 && v.k1.k2 && ...\<close>: the first falsy value on the path, else the last value.\<close>

fun and_path :: "js \<Rightarrow> string list \<Rightarrow> js_error + js" where
  "and_path v [] = Inr v"
| "and_path v (k # ks) =
     (case js_get v k of
        Inl e \<Rightarrow> Inl e
      | Inr w \<Rightarrow> if truthy w then and_path w ks else Inr w)"

definition isArray :: "js \<Rightarrow> bool" where
  "isArray v = (case v of JArr xs ps \<Rightarrow> True | _ \<Rightarrow> False)"

text \<open>\<open>Array.isArray(v) ? v : [v]\<close>.\<close>

definition as_array :: "js \<Rightarrow> js" where
  "as_array v = (if isArray v then v else JArr [v] [])"

text \<open>The local \<open>jobs\<close> of \<open>extractJobs\<close> after its chain of shape tests.\<close>

definition extractJobs_items :: "js \<Rightarrow> js_error + js" where
  "extractJobs_items parsedData =
     bind_err (and_path parsedData [''rss'', ''channel'', ''item'']) (\<lambda>a.
       if truthy a then Inr (as_array a)
       else bind_err (and_path parsedData [''feed'', ''entry'']) (\<lambda>b.
         if truthy b then Inr (as_array b)
         else bind_err (and_path parsedData [''jobs'', ''job'']) (\<lambda>c.
           if truthy c then Inr (as_array c)
           else bind_err (js_get parsedData ''job'') (\<lambda>d.
             if truthy d then Inr (as_array d)
             else if isArray parsedData then Inr parsedData
             else Inr (JArr [] [])))))"

primrec map_err :: "('a \<Rightarrow> 'e + 'b) \<Rightarrow> 'a list \<Rightarrow> 'e + 'b list" where
  "map_err f [] = Inr []"
| "map_err f (x # xs) =
     (case f x of
        Inl e \<Rightarrow> Inl e
      | Inr y \<Rightarrow> (case map_err f xs of Inl e \<Rightarrow> Inl e | Inr ys \<Rightarrow> Inr (y # ys)))"

text \<open>
  \<open>jobs.map(f)\<close>: the elements in order; an own \<open>map\<close> property, which parsed feed data
  cannot make callable, hides the method.
\<close>

definition array_map :: "(js \<Rightarrow> js_error + 'b) \<Rightarrow> js \<Rightarrow> js_error + 'b list" where
  "array_map f jobs =
     (case jobs of
        JArr xs ps \<Rightarrow> if map_of ps ''map'' = None then map_err f xs else Inl TypeError
      | _ \<Rightarrow> Inl TypeError)"


text \<open>
  \<open>extractJobs\<close>: whatever is thrown inside the \<open>try\<close>, by the shape tests or by the
  normalisation of an item, is caught and answered with the empty array.
\<close>

definition extractJobs ::
  "int \<Rightarrow> (js \<Rightarrow> int option) \<Rightarrow> js \<Rightarrow> string \<Rightarrow> normalized_job list" where
  "extractJobs now parseDate parsedData sourceUrl =
     (case bind_err (extractJobs_items parsedData)
             (array_map (\<lambda>job. normalizeJob now parseDate job sourceUrl)) of
        Inl e \<Rightarrow> []
      | Inr jobs \<Rightarrow> jobs)"

text \<open>
  \<open>fetchFromMultipleURLs\<close>. \<open>fetchFromURL\<close> is the network and the XML parser: it never
  throws and answers one result object per URL; \<open>Promise.all\<close> keeps the order of the URLs.
\<close>

record fetch_result =
  fr_url :: string
  fr_data :: js
  fr_success :: bool
  fr_error :: "string option"

record fetch_error =
  fe_url :: string
  fe_error :: "string option"

definition fetchFromMultipleURLs ::
  "(string \<Rightarrow> fetch_result) \<Rightarrow> int \<Rightarrow> (js \<Rightarrow> int option) \<Rightarrow> string list
     \<Rightarrow> normalized_job list \<times> fetch_error list" where
  "fetchFromMultipleURLs fetchFromURL now parseDate urls =
     (let results = map fetchFromURL urls in
      (concat (map (\<lambda>r. if fr_success r \<and> truthy (fr_data r)
                          then extractJobs now parseDate (fr_data r) (fr_url r) else [])
                   results),
       concat (map (\<lambda>r. if fr_success r \<and> truthy (fr_data r)
                          then [] else [\<lparr> fe_url = fr_url r, fe_error = fr_error r \<rparr>])
                   results)))"

section \<open>The queue\<close>

text \<open>
  An entry of the BullMQ queue \<open>job-processing\<close>: the job name, its data
  \<open>{ jobData, importLogId }\<close> and the custom job id of its options.
\<close>

record bulk_job =
  q_name :: string
  q_jobData :: normalized_job
  q_importLogId :: string
  q_jobId :: string

text \<open>The local \<open>bulkJobs\<close> of \<open>addBulkJobsToQueue\<close>.\<close>

definition bulkJobs :: "normalized_job list \<Rightarrow> string \<Rightarrow> bulk_job list" where
  "bulkJobs jobs importLogId =
     map (\<lambda>jobData. \<lparr> q_name = ''process-job'',
                       q_jobData = jobData,
                       q_importLogId = importLogId,
                       q_jobId = importLogId @ ''-'' @ n_externalId jobData \<rparr>) jobs"

text \<open>
  \<open>jobQueue.addBulk\<close>: BullMQ adds the jobs in order and ignores a job whose custom id
  the queue already holds (the source relies on it: "Use externalId as job ID to prevent
  duplicates").
\<close>

fun queue_addBulk :: "bulk_job list \<Rightarrow> bulk_job list \<Rightarrow> bulk_job list" where
  "queue_addBulk [] entries = entries"
| "queue_addBulk (b # bs) entries =
     queue_addBulk bs (if q_jobId b \<in> set (map q_jobId entries) then entries else entries @ [b])"

section \<open>Import logs\<close>

datatype log_status = In_progress | Completed | Failed

text \<open>
  A document of the ImportLog collection, without the \<open>createdAt\<close> and \<open>updatedAt\<close> stamps
  Mongoose maintains by itself. A failure reason is a string, or \<open>undefined\<close> where the
  fetch result carried no error.
\<close>

record import_log =
  fileName :: string
  timestamp :: int
  totalFetched :: int
  newJobs :: int
  updatedJobs :: int
  failedJobs :: int
  failedReasons :: "string option list"
  duration :: int
  status :: log_status

text \<open>
  The durable state the entry points act on: the ImportLog collection (a log's \<open>_id\<close> is
  its position), the queue's entries, and whether the broker refuses commands (then with
  which message).
\<close>

record world =
  importLogs :: "import_log list"
  queue :: "bulk_job list"
  broker_down :: "string option"

text \<open>An exception, by its message.\<close>

datatype thrown = Error string

fun message :: "thrown \<Rightarrow> string" where
  "message (Error m) = m"

text \<open>\<open>importLog._id.toString()\<close>.\<close>

definition id_string :: "nat \<Rightarrow> string" where
  "id_string i = digits i"

text \<open>
  \<open>createImportLog\<close>: the schema requires \<open>fileName\<close>, and Mongoose's required validator
  rejects the empty string; the new log starts with the schema's defaults.
\<close>

definition createImportLog :: "string \<Rightarrow> int \<Rightarrow> world \<Rightarrow> thrown + (nat \<times> world)" where
  "createImportLog fileName_arg now w =
     (if fileName_arg = []
      then Inl (Error ''ImportLog validation failed: fileName: Path `fileName` is required.'')
      else Inr (length (importLogs w),
                w\<lparr> importLogs := importLogs w @
                     [\<lparr> fileName = fileName_arg, timestamp = now, totalFetched = 0,
                        newJobs = 0, updatedJobs = 0, failedJobs = 0, failedReasons = [],
                        duration = 0, status = In_progress \<rparr>] \<rparr>))"

text \<open>The \<open>stats\<close> argument of \<open>updateImportLog\<close>: every property may be absent.\<close>

record stats_arg =
  s_totalFetched :: "int option"
  s_newJobs :: "int option"
  s_created :: "int option"
  s_updatedJobs :: "int option"
  s_updated :: "int option"
  s_failedJobs :: "int option"
  s_failed :: "int option"
  s_failedReasons :: "string option list option"
  s_errors :: "string option list option"
  s_duration :: "int option"
  s_status :: "log_status option"

text \<open>\<open>a || b\<close> on a number that may be absent: \<open>undefined\<close> and \<open>0\<close> are falsy.\<close>

definition num_or :: "int option \<Rightarrow> int \<Rightarrow> int" where
  "num_or a b = (case a of Some n \<Rightarrow> if n \<noteq> 0 then n else b | None \<Rightarrow> b)"

definition updateImportLog :: "nat \<Rightarrow> stats_arg \<Rightarrow> world \<Rightarrow> thrown + world" where
  "updateImportLog logId stats w =
     (if logId < length (importLogs w)
      then Inr (w\<lparr> importLogs := (importLogs w)[logId := (importLogs w ! logId)
                  \<lparr> totalFetched := num_or (s_totalFetched stats) 0,
                    newJobs := num_or (s_newJobs stats) (num_or (s_created stats) 0),
                    updatedJobs := num_or (s_updatedJobs stats) (num_or (s_updated stats) 0),
                    failedJobs := num_or (s_failedJobs stats) (num_or (s_failed stats) 0),
                    failedReasons :=
                      (case s_failedReasons stats of
                         Some rs \<Rightarrow> rs
                       | None \<Rightarrow> (case s_errors stats of Some es \<Rightarrow> es | None \<Rightarrow> [])),
                    duration := num_or (s_duration stats) 0,
                    status := (case s_status stats of Some st \<Rightarrow> st | None \<Rightarrow> Completed) \<rparr>] \<rparr>)
      else Inl (Error (''Import log '' @ id_string logId @ '' not found'')))"

text \<open>\<open>markImportFailed\<close>: the update of a log that does not exist changes nothing.\<close>

definition markImportFailed :: "nat \<Rightarrow> string \<Rightarrow> int \<Rightarrow> world \<Rightarrow> world" where
  "markImportFailed logId reason duration_arg w =
     (if logId < length (importLogs w)
      then w\<lparr> importLogs := (importLogs w)[logId := (importLogs w ! logId)
                  \<lparr> status := Failed, failedReasons := [Some reason],
                    duration := duration_arg \<rparr>] \<rparr>
      else w)"

text \<open>\<open>addBulkJobsToQueue\<close>: an error of the broker is logged and thrown again.\<close>

definition addBulkJobsToQueue :: "normalized_job list \<Rightarrow> string \<Rightarrow> world \<Rightarrow> thrown + world" where
  "addBulkJobsToQueue jobs importLogId w =
     (case broker_down w of
        Some m \<Rightarrow> Inl (Error m)
      | None \<Rightarrow> Inr (w\<lparr> queue := queue_addBulk (bulkJobs jobs importLogId) (queue w) \<rparr>))"

section \<open>The entry points\<close>

text \<open>\<open>s.split(',')\<close> and \<open>xs.join(', ')\<close>.\<close>

fun split_comma :: "string \<Rightarrow> string list" where
  "split_comma [] = [[]]"
| "split_comma (c # cs) =
     (if c = CHR '','' then [] # split_comma cs
      else (case split_comma cs of [] \<Rightarrow> [[c]] | h # t \<Rightarrow> (c # h) # t))"

definition join_comma_space :: "string list \<Rightarrow> string" where
  "join_comma_space ss = concat (case ss of [] \<Rightarrow> [] | x # xs \<Rightarrow> x # map (\<lambda>y. '', '' @ y) xs)"

text \<open>
  What a run reads from outside: the environment variable, the network, the clock (at the
  start of the run, while it fetches, and when it computes the duration) and the date
  parser.
\<close>

record env =
  JOB_FEED_URLS :: "string option"
  fetchFromURL :: "string \<Rightarrow> fetch_result"
  parseDate :: "js \<Rightarrow> int option"
  startTime :: int
  fetchTime :: int
  endTime :: int

text \<open>
  The part both entry points share, from \<open>createImportLog\<close> on. The result is the list of
  the durable states the run goes through, the first before the run and each next one
  after one more awaited effect; a run that stops at any moment leaves the last state it
  reached. The second component is the error that reached the \<open>catch\<close> block, the third
  the log's id and the number of jobs fetched, once known.
\<close>

definition zero_stats :: "fetch_error list \<Rightarrow> int \<Rightarrow> stats_arg" where
  "zero_stats errors d =
     \<lparr> s_totalFetched = Some 0, s_newJobs = Some 0, s_created = None, s_updatedJobs = Some 0,
       s_updated = None, s_failedJobs = Some 0, s_failed = None,
       s_failedReasons = Some (map fe_error errors), s_errors = None,
       s_duration = Some d,
       s_status = Some (if length errors > 0 then Failed else Completed) \<rparr>"

definition queued_stats :: "normalized_job list \<Rightarrow> int \<Rightarrow> stats_arg" where
  "queued_stats jobs d =
     \<lparr> s_totalFetched = Some (int (length jobs)), s_newJobs = None, s_created = None,
       s_updatedJobs = None, s_updated = None, s_failedJobs = None, s_failed = None,
       s_failedReasons = None, s_errors = None,
       s_duration = Some d, s_status = Some In_progress \<rparr>"

record run =
  states :: "world list"
  caught :: "thrown option"
  logId_of :: "nat option"
  fetched :: "(normalized_job list \<times> fetch_error list) option"

definition runImport :: "env \<Rightarrow> string \<Rightarrow> string list \<Rightarrow> world \<Rightarrow> run" where
  "runImport e label feedUrls w0 =
     (let d = endTime e - startTime e in
      case createImportLog label (startTime e) w0 of
        Inl err \<Rightarrow> \<lparr> states = [w0], caught = Some err, logId_of = None, fetched = None \<rparr>
      | Inr (logId, w1) \<Rightarrow>
          (let (jobs, errors) =
                 fetchFromMultipleURLs (fetchFromURL e) (fetchTime e) (parseDate e) feedUrls in
           if length jobs = 0
           then (case updateImportLog logId (zero_stats errors d) w1 of
                   Inl err \<Rightarrow>
                     \<lparr> states = [w0, w1, markImportFailed logId (message err) d w1],
                       caught = Some err, logId_of = Some logId,
                       fetched = Some (jobs, errors) \<rparr>
                 | Inr w2 \<Rightarrow>
                     \<lparr> states = [w0, w1, w2], caught = None, logId_of = Some logId,
                       fetched = Some (jobs, errors) \<rparr>)
           else (case addBulkJobsToQueue jobs (id_string logId) w1 of
                   Inl err \<Rightarrow>
                     \<lparr> states = [w0, w1, markImportFailed logId (message err) d w1],
                       caught = Some err, logId_of = Some logId,
                       fetched = Some (jobs, errors) \<rparr>
                 | Inr w2 \<Rightarrow>
                     (case updateImportLog logId (queued_stats jobs d) w2 of
                        Inl err \<Rightarrow>
                          \<lparr> states = [w0, w1, w2, markImportFailed logId (message err) d w2],
                            caught = Some err, logId_of = Some logId,
                            fetched = Some (jobs, errors) \<rparr>
                      | Inr w3 \<Rightarrow>
                          \<lparr> states = [w0, w1, w2, w3], caught = None, logId_of = Some logId,
                            fetched = Some (jobs, errors) \<rparr>))))"

text \<open>
  \<open>automatedImport\<close>, the function the cron schedule calls: the feed URLs are the trimmed
  parts of the environment variable, and without any it returns at once.
\<close>

definition automatedImport :: "env \<Rightarrow> world \<Rightarrow> world list" where
  "automatedImport e w0 =
     (let feedUrls = (case JOB_FEED_URLS e of
                        Some s \<Rightarrow> map trim (split_comma s)
                      | None \<Rightarrow> []) in
      if length feedUrls = 0 then [w0]
      else states (runImport e (''Automated: '' @ join_comma_space feedUrls) feedUrls w0))"

text \<open>
  \<open>startImport\<close>, the handler of \<open>POST /api/import/start\<close>: the URLs of the request body,
  else the parts of the environment variable. It answers with a status code and a body.
\<close>

record response =
  r_code :: nat
  r_success :: bool
  r_message :: string
  r_importLogId :: "nat option"
  r_totalJobs :: "int option"
  r_error :: "string option"

definition startImport :: "string list option \<Rightarrow> env \<Rightarrow> world \<Rightarrow> response \<times> world list" where
  "startImport body_urls e w0 =
     (let feedUrls = (case body_urls of
                        Some us \<Rightarrow> us
                      | None \<Rightarrow> (case JOB_FEED_URLS e of
                                   Some s \<Rightarrow> split_comma s
                                 | None \<Rightarrow> [])) in
      if length feedUrls = 0
      then (\<lparr> r_code = 400, r_success = False, r_message = ''No feed URLs provided'',
              r_importLogId = None, r_totalJobs = None, r_error = None \<rparr>, [w0])
      else (let r = runImport e (join_comma_space feedUrls) feedUrls w0 in
            ((case caught r of
               Some err \<Rightarrow>
                 \<lparr> r_code = 500, r_success = False, r_message = ''Failed to start import'',
                   r_importLogId = None, r_totalJobs = None, r_error = Some (message err) \<rparr>
             | None \<Rightarrow>
                 (case fetched r of
                    Some (jobs, errors) \<Rightarrow>
                      if length jobs = 0
                      then \<lparr> r_code = 200, r_success = True,
                             r_message = ''No jobs found to import'',
                             r_importLogId = logId_of r, r_totalJobs = None, r_error = None \<rparr>
                      else \<lparr> r_code = 202, r_success = True,
                             r_message = ''Import started successfully. ''
                               @ show_int (int (length jobs)) @ '' jobs queued for processing.'',
                             r_importLogId = logId_of r,
                             r_totalJobs = Some (int (length jobs)), r_error = None \<rparr>
                  | None \<Rightarrow>
                      \<lparr> r_code = 500, r_success = False, r_message = ''Failed to start import'',
                        r_importLogId = None, r_totalJobs = None, r_error = None \<rparr>)),
             states r)))"

text \<open>
  What an auditor sees of a run in a durable state: the run's log, if it exists yet (its
  \<open>totalFetched\<close>, status and failure reasons), and the job ids in the queue.
\<close>

definition observe ::
  "nat \<Rightarrow> world \<Rightarrow> (int \<times> log_status \<times> string option list) option \<times> string list" where
  "observe logId w =
     ((if logId < length (importLogs w)
       then Some (totalFetched (importLogs w ! logId), status (importLogs w ! logId),
                  failedReasons (importLogs w ! logId))
       else None),
      map q_jobId (queue w))"


section \<open>The success rate\<close>

subsection \<open>Numbers\<close>

text \<open>
  A JavaScript number is an IEEE 754 double. The values that occur here are exact
  rationals: counts of documents (integers far below \<open>2^53\<close>), and the results of one
  division and one multiplication, each rounded to the nearest double, a tie going to the
  even significand. \<open>double_round\<close> is that rounding for a positive rational in the range
  of the normal doubles, which quotients of counts and their hundredfold are in:
  the value is scaled to a significand of 53 bits, the significand is rounded to an
  integer, and the scale is put back.
\<close>

definition round_half_even :: "rat \<Rightarrow> int" where
  "round_half_even q =
     (let f = \<lfloor>q\<rfloor>; r = q - of_int f in
      if r < 1 / 2 then f
      else if 1 / 2 < r then f + 1
      else if even f then f else f + 1)"

text \<open>The binary exponent of a positive rational: \<open>2^k \<le> q < 2^(k+1)\<close>.\<close>

definition binary_exponent :: "rat \<Rightarrow> int" where
  "binary_exponent q =
     (let (a, b) = quotient_of q; k = bitlen a - bitlen b in
      if 2 powi k \<le> q then k else k - 1)"

definition double_round :: "rat \<Rightarrow> rat" where
  "double_round q =
     (if q = 0 then 0
      else (let e = binary_exponent q - 52 in
            of_int (round_half_even (q / 2 powi e)) * 2 powi e))"

text \<open>
  \<open>x.toFixed(2)\<close> for \<open>0 \<le> x < 10^21\<close>, by the steps of the language standard: \<open>n\<close> is the
  integer for which \<open>n / 100 - x\<close> is closest to zero, the larger one of two; its digits,
  with zeros in front up to three digits, get a point before the last two.
\<close>

definition fixed2 :: "int \<Rightarrow> string" where
  "fixed2 n =
     (let m = digits (nat n);
          m = (if length m \<le> 2 then replicate (3 - length m) CHR ''0'' @ m else m) in
      take (length m - 2) m @ ''.'' @ drop (length m - 2) m)"

definition toFixed2 :: "rat \<Rightarrow> string" where
  "toFixed2 x = fixed2 \<lfloor>x * 100 + 1 / 2\<rfloor>"

subsection \<open>calculateSuccessRate\<close>

text \<open>
  The result is the string \<open>toFixed\<close> makes when there is a log, and the number 0 when
  there is none. Both counts are read from the ImportLog collection.
\<close>

datatype rate = RateText string | RateNumber int

definition calculateSuccessRate :: "world \<Rightarrow> rate" where
  "calculateSuccessRate w =
     (let completed = length (filter (\<lambda>l. status l = Completed) (importLogs w));
          total = length (importLogs w) in
      if total > 0
      then RateText (toFixed2 (double_round
             (double_round (of_nat completed / of_nat total) * 100)))
      else RateNumber 0)"

section \<open>The job store\<close>

text \<open>
  A candidate, the \<open>jobData\<close> argument of \<open>processJob\<close>: a Job-shaped object whose
  properties are strings (dates for the two stamps) and may be absent.
\<close>

record job_data =
  externalId :: "string option"
  title :: "string option"
  company :: "string option"
  category :: "string option"
  type :: "string option"
  location :: "string option"
  description :: "string option"
  url :: "string option"
  postedAt :: "int option"
  updatedAt :: "int option"

text \<open>A document of the Job collection, with its \<open>_id\<close> and the stamps Mongoose adds.\<close>

record job_doc =
  d_id :: nat
  d_externalId :: string
  d_title :: string
  d_company :: string
  d_category :: string
  d_type :: string
  d_location :: string
  d_description :: string
  d_url :: string
  d_postedAt :: int
  d_updatedAt :: int
  d_createdAt :: int

text \<open>
  What \<open>processJob\<close> can throw: its own error, the three of the store, and the
  \<open>TypeError\<close> of reading a property of \<open>null\<close> or \<open>undefined\<close>.
\<close>

datatype job_error =
    Missing_required_fields
  | Validation_failed "string list"
  | Duplicate_key string
  | Document_not_found
  | Cannot_read_properties

text \<open>The message of the one error \<open>processJob\<close> throws by itself.\<close>

definition missing_required_message :: string where
  "missing_required_message = ''Missing required fields: externalId, title, company, or url''"

text \<open>\<open>!v\<close> for a string that may be absent.\<close>

definition falsy :: "string option \<Rightarrow> bool" where
  "falsy v = (v = None \<or> v = Some [])"

subsection \<open>The schema\<close>

definition type_enum :: "string list" where
  "type_enum = [''Full-time'', ''Part-time'', ''Contract'', ''Freelance'', ''Remote'', ''Other'']"

text \<open>
  The validation Mongoose runs before every save, on all paths of the document: a path
  with \<open>required: true\<close> fails when it is absent or the empty string, a path with an
  \<open>enum\<close> fails on a value outside it. The result is the list of the failing paths, in
  the order of the schema.
\<close>

definition schema_errors ::
  "string option \<Rightarrow> string option \<Rightarrow> string option \<Rightarrow> string option
     \<Rightarrow> string option \<Rightarrow> string option \<Rightarrow> string list" where
  "schema_errors v_externalId v_title v_company v_type v_description v_url =
     (if falsy v_externalId then [''externalId''] else [])
     @ (if falsy v_title then [''title''] else [])
     @ (if falsy v_company then [''company''] else [])
     @ (case v_type of None \<Rightarrow> [] | Some t \<Rightarrow> if t \<in> set type_enum then [] else [''type''])
     @ (if falsy v_description then [''description''] else [])
     @ (if falsy v_url then [''url''] else [])"

definition doc_errors :: "job_doc \<Rightarrow> string list" where
  "doc_errors d =
     schema_errors (Some (d_externalId d)) (Some (d_title d)) (Some (d_company d))
       (Some (d_type d)) (Some (d_description d)) (Some (d_url d))"

text \<open>An \<open>_id\<close> no document of the collection has.\<close>

definition fresh_id :: "job_doc list \<Rightarrow> nat" where
  "fresh_id store = Suc (foldr max (map d_id store) 0)"

text \<open>
  \<open>Job.findOne({ $or: [{ externalId }, { url }] })\<close>: the first document, in the order of
  insertion, that has the one or the other.
\<close>

definition findOne_or :: "string \<Rightarrow> string \<Rightarrow> job_doc list \<Rightarrow> job_doc option" where
  "findOne_or e u store = find (\<lambda>d. d_externalId d = e \<or> d_url d = u) store"

text \<open>
  \<open>new Job(jobData)\<close> followed by \<open>save()\<close>: the defaults of the schema fill the absent
  paths, the document is validated, the hook and the timestamps set \<open>updatedAt\<close> and
  \<open>createdAt\<close>, and the insert fails on a duplicate key of one of the two unique indexes.
\<close>

definition value_or :: "'a option \<Rightarrow> 'a \<Rightarrow> 'a" where
  "value_or v dflt = (case v of Some x \<Rightarrow> x | None \<Rightarrow> dflt)"

definition new_Job :: "int \<Rightarrow> nat \<Rightarrow> job_data \<Rightarrow> job_doc" where
  "new_Job now i jobData =
     \<lparr> d_id = i,
       d_externalId = value_or (externalId jobData) [],
       d_title = value_or (title jobData) [],
       d_company = value_or (company jobData) [],
       d_category = value_or (category jobData) ''General'',
       d_type = value_or (type jobData) ''Other'',
       d_location = value_or (location jobData) ''Remote'',
       d_description = value_or (description jobData) [],
       d_url = value_or (url jobData) [],
       d_postedAt = value_or (postedAt jobData) now,
       d_updatedAt = now,
       d_createdAt = now \<rparr>"

definition save_new :: "int \<Rightarrow> job_data \<Rightarrow> job_doc list \<Rightarrow> job_error + (job_doc \<times> job_doc list)" where
  "save_new now jobData store =
     (let errs = schema_errors (externalId jobData) (title jobData) (company jobData)
                   (Some (value_or (type jobData) ''Other'')) (description jobData) (url jobData);
          newJob = new_Job now (fresh_id store) jobData in
      if errs \<noteq> [] then Inl (Validation_failed errs)
      else if d_externalId newJob \<in> set (map d_externalId store) then Inl (Duplicate_key ''externalId'')
      else if d_url newJob \<in> set (map d_url store) then Inl (Duplicate_key ''url'')
      else Inr (newJob, store @ [newJob]))"

text \<open>
  \<open>Object.assign(existingJob, { ...jobData, updatedAt: new Date() })\<close>: every property the
  candidate has replaces the document's; the hook sets \<open>updatedAt\<close> at the save.
\<close>

definition assign :: "int \<Rightarrow> job_doc \<Rightarrow> job_data \<Rightarrow> job_doc" where
  "assign now existingJob jobData =
     existingJob
       \<lparr> d_externalId := value_or (externalId jobData) (d_externalId existingJob),
         d_title := value_or (title jobData) (d_title existingJob),
         d_company := value_or (company jobData) (d_company existingJob),
         d_category := value_or (category jobData) (d_category existingJob),
         d_type := value_or (type jobData) (d_type existingJob),
         d_location := value_or (location jobData) (d_location existingJob),
         d_description := value_or (description jobData) (d_description existingJob),
         d_url := value_or (url jobData) (d_url existingJob),
         d_postedAt := value_or (postedAt jobData) (d_postedAt existingJob),
         d_updatedAt := now \<rparr>"

text \<open>
  \<open>existingJob.save()\<close> of a document read earlier (\<open>loaded\<close>) and changed in memory
  (\<open>changed\<close>): after the validation, Mongoose sends the paths that differ from what it
  read, for the document with that \<open>_id\<close>. The store refuses an \<open>externalId\<close> or \<open>url\<close>
  that is sent and that another document has; the other paths of the stored document
  stay as they are.
\<close>

definition pick :: "'a \<Rightarrow> 'a \<Rightarrow> 'a \<Rightarrow> 'a" where
  "pick changed loaded stored = (if changed \<noteq> loaded then changed else stored)"

definition apply_changes :: "job_doc \<Rightarrow> job_doc \<Rightarrow> job_doc \<Rightarrow> job_doc" where
  "apply_changes changed loaded stored =
     stored
       \<lparr> d_externalId := pick (d_externalId changed) (d_externalId loaded) (d_externalId stored),
         d_title := pick (d_title changed) (d_title loaded) (d_title stored),
         d_company := pick (d_company changed) (d_company loaded) (d_company stored),
         d_category := pick (d_category changed) (d_category loaded) (d_category stored),
         d_type := pick (d_type changed) (d_type loaded) (d_type stored),
         d_location := pick (d_location changed) (d_location loaded) (d_location stored),
         d_description := pick (d_description changed) (d_description loaded) (d_description stored),
         d_url := pick (d_url changed) (d_url loaded) (d_url stored),
         d_postedAt := pick (d_postedAt changed) (d_postedAt loaded) (d_postedAt stored),
         d_updatedAt := d_updatedAt changed \<rparr>"

definition save_existing ::
  "job_doc \<Rightarrow> job_doc \<Rightarrow> job_doc list \<Rightarrow> job_error + (job_doc \<times> job_doc list)" where
  "save_existing changed loaded store =
     (let errs = doc_errors changed;
          others = filter (\<lambda>d. d_id d \<noteq> d_id loaded) store in
      if errs \<noteq> [] then Inl (Validation_failed errs)
      else if d_id loaded \<notin> set (map d_id store) then Inl Document_not_found
      else if d_externalId changed \<noteq> d_externalId loaded
              \<and> d_externalId changed \<in> set (map d_externalId others)
           then Inl (Duplicate_key ''externalId'')
      else if d_url changed \<noteq> d_url loaded \<and> d_url changed \<in> set (map d_url others)
           then Inl (Duplicate_key ''url'')
      else Inr (changed,
                map (\<lambda>d. if d_id d = d_id loaded then apply_changes changed loaded d else d)
                    store))"

section \<open>The processor\<close>

datatype action = Created | Updated | Failed_action

text \<open>
  What \<open>processJob\<close> resolves to: \<open>success\<close>, \<open>action\<close> (\<open>created\<close>, \<open>updated\<close> or
  \<open>failed\<close>), the error when it failed and the document when it did not.
\<close>

record process_result =
  success :: bool
  action :: action
  error :: "job_error option"
  job :: "job_doc option"

definition failed_with :: "job_error \<Rightarrow> process_result" where
  "failed_with e = \<lparr> success = False, action = Failed_action, error = Some e, job = None \<rparr>"

text \<open>
  \<open>processJob\<close> up to its first \<open>await\<close>: the check of the four required properties, which
  throws into the \<open>catch\<close> of the function, then the query. The result is the outcome
  the call already has, or what the query finds.
\<close>

definition missing_required :: "job_data \<Rightarrow> bool" where
  "missing_required jobData =
     (falsy (externalId jobData) \<or> falsy (title jobData) \<or> falsy (company jobData)
        \<or> falsy (url jobData))"

definition processJob_find :: "job_data \<Rightarrow> job_doc list \<Rightarrow> process_result + job_doc option" where
  "processJob_find jobData store =
     (if missing_required jobData
      then Inl (failed_with Missing_required_fields)
      else Inr (findOne_or (value_or (externalId jobData) []) (value_or (url jobData) []) store))"

text \<open>
  \<open>processJob\<close> after the query: the update of the document found, or the insert of a new
  one; what the save throws is caught and becomes the outcome \<open>failed\<close>.
\<close>

definition processJob_save ::
  "int \<Rightarrow> job_data \<Rightarrow> job_doc option \<Rightarrow> job_doc list \<Rightarrow> process_result \<times> job_doc list" where
  "processJob_save now jobData found store =
     (case found of
        Some existingJob \<Rightarrow>
          (case save_existing (assign now existingJob jobData) existingJob store of
             Inl e \<Rightarrow> (failed_with e, store)
           | Inr (d, store') \<Rightarrow>
               (\<lparr> success = True, action = Updated, error = None, job = Some d \<rparr>, store'))
      | None \<Rightarrow>
          (case save_new now jobData store of
             Inl e \<Rightarrow> (failed_with e, store)
           | Inr (d, store') \<Rightarrow>
               (\<lparr> success = True, action = Created, error = None, job = Some d \<rparr>, store')))"

text \<open>
  One call of \<open>processJob\<close> for a candidate that is an object, with nothing else touching
  the store in between.
\<close>

definition processJob :: "int \<Rightarrow> job_data \<Rightarrow> job_doc list \<Rightarrow> process_result \<times> job_doc list" where
  "processJob now jobData store =
     (case processJob_find jobData store of
        Inl r \<Rightarrow> (r, store)
      | Inr found \<Rightarrow> processJob_save now jobData found store)"

text \<open>A promise as \<open>Promise.allSettled\<close> reports it.\<close>

datatype settled = Fulfilled process_result | Rejected "job_error option"


subsection \<open>batchProcessJobs\<close>

text \<open>
  \<open>Promise.allSettled(jobs.map(job => this.processJob(job)))\<close> starts every call at once,
  and the store serves their queries and saves one at a time in an order of its own. A
  call is before its query, between its query and its save, done, or has thrown out of
  its \<open>catch\<close>.
\<close>

datatype call_state = Pending | Found "job_doc option" | Done process_result | Thrown job_error

text \<open>
  The calls as \<open>jobs.map\<close> leaves them: a candidate that fails the check is done, and
  \<open>null\<close> or \<open>undefined\<close> has thrown.
\<close>

definition start_calls :: "job_data option list \<Rightarrow> call_state list" where
  "start_calls jobs =
     map (\<lambda>arg. case arg of
                  None \<Rightarrow> Thrown Cannot_read_properties
                | Some jobData \<Rightarrow>
                    if missing_required jobData
                    then Done (failed_with Missing_required_fields) else Pending) jobs"

text \<open>The store serves the next request of call \<open>i\<close>.\<close>

definition serve_call ::
  "int \<Rightarrow> job_data \<Rightarrow> call_state \<Rightarrow> job_doc list \<Rightarrow> job_doc list \<times> call_state" where
  "serve_call now jobData c store =
     (case c of
        Pending \<Rightarrow>
          (case processJob_find jobData store of
             Inl r \<Rightarrow> (store, Done r)
           | Inr found \<Rightarrow> (store, Found found))
      | Found found \<Rightarrow>
          (let (r, store') = processJob_save now jobData found store in (store', Done r))
      | Done r \<Rightarrow> (store, Done r)
      | Thrown e \<Rightarrow> (store, Thrown e))"

definition serve ::
  "int \<Rightarrow> job_data option list \<Rightarrow> nat \<Rightarrow> job_doc list \<times> call_state list
     \<Rightarrow> job_doc list \<times> call_state list" where
  "serve now jobs i sc =
     (let (store, calls) = sc in
      if i < length calls \<and> i < length jobs
      then (case jobs ! i of
              None \<Rightarrow> (store, calls)
            | Some jobData \<Rightarrow>
                (let (store', c) = serve_call now jobData (calls ! i) store in
                 (store', calls[i := c])))
      else (store, calls))"

definition serve_all ::
  "int \<Rightarrow> job_data option list \<Rightarrow> nat list \<Rightarrow> job_doc list \<Rightarrow> job_doc list \<times> call_state list" where
  "serve_all now jobs schedule store =
     foldl (\<lambda>sc i. serve now jobs i sc) (store, start_calls jobs) schedule"

datatype batch_error = Reported job_error | Unknown_error | Processing_failed

record stats =
  st_total :: nat
  st_created :: nat
  st_updated :: nat
  st_failed :: nat
  st_errors :: "batch_error list"

text \<open>The body of \<open>results.forEach\<close>.\<close>

definition count_result :: "stats \<Rightarrow> settled \<Rightarrow> stats" where
  "count_result st result =
     (case result of
        Fulfilled r \<Rightarrow>
          if success r
          then (if action r = Created then st\<lparr> st_created := st_created st + 1 \<rparr>
                else if action r = Updated then st\<lparr> st_updated := st_updated st + 1 \<rparr>
                else st)
          else st\<lparr> st_failed := st_failed st + 1,
                   st_errors := st_errors st @
                     [case error r of Some e \<Rightarrow> Reported e | None \<Rightarrow> Unknown_error] \<rparr>
      | Rejected reason \<Rightarrow>
          st\<lparr> st_failed := st_failed st + 1,
              st_errors := st_errors st @
                [case reason of Some e \<Rightarrow> Reported e | None \<Rightarrow> Processing_failed] \<rparr>)"

definition count_results :: "nat \<Rightarrow> settled list \<Rightarrow> stats" where
  "count_results n results =
     foldl count_result
       \<lparr> st_total = n, st_created = 0, st_updated = 0, st_failed = 0, st_errors = [] \<rparr> results"

text \<open>
  The promise of a call: fulfilled with the outcome of a call that is done, rejected with
  what a call has thrown; a call that is neither has not settled.
\<close>

definition settle :: "call_state \<Rightarrow> settled option" where
  "settle c =
     (case c of
        Done r \<Rightarrow> Some (Fulfilled r)
      | Thrown e \<Rightarrow> Some (Rejected (Some e))
      | _ \<Rightarrow> None)"

text \<open>
  \<open>batchProcessJobs\<close> under the order \<open>schedule\<close> in which the store serves the calls: the
  statistics and the store once every call has settled, \<open>None\<close> while one has not.
\<close>

definition batchProcessJobs ::
  "int \<Rightarrow> nat list \<Rightarrow> job_data option list \<Rightarrow> job_doc list
     \<Rightarrow> (stats \<times> job_doc list) option" where
  "batchProcessJobs now schedule jobs store =
     (let (store', calls) = serve_all now jobs schedule store in
      case those (map settle calls) of
        Some results \<Rightarrow> Some (count_results (length jobs) results, store')
      | None \<Rightarrow> None)"

text \<open>The order in which every call is served to its end before the next one starts.\<close>

definition one_by_one :: "nat \<Rightarrow> nat list" where
  "one_by_one n = concat (map (\<lambda>i. [i, i]) [0..<n])"

text \<open>The order in which the store answers all queries before the first save.\<close>

definition queries_first :: "nat \<Rightarrow> nat list" where
  "queries_first n = [0..<n] @ [0..<n]"

text \<open>
  A candidate that passes the check of \<open>processJob\<close> and the validation of a new document:
  the four required properties and the description are present and not empty, and the
  type, when present, is one of the enum.
\<close>

definition persistable :: "job_data \<Rightarrow> bool" where
  "persistable jobData =
     (\<not> missing_required jobData \<and> \<not> falsy (description jobData)
      \<and> value_or (type jobData) ''Other'' \<in> set type_enum)"

text \<open>
  A candidate that passes the check of \<open>processJob\<close> and sets no property to a value the
  schema refuses: a description it has is not empty, a type it has is one of the enum.
\<close>

definition acceptable :: "job_data \<Rightarrow> bool" where
  "acceptable jobData =
     (\<not> missing_required jobData \<and> description jobData \<noteq> Some []
      \<and> (case type jobData of None \<Rightarrow> True | Some t \<Rightarrow> t \<in> set type_enum))"

text \<open>A store whose documents have distinct ids and all pass the validation of the schema.\<close>

definition store_valid :: "job_doc list \<Rightarrow> bool" where
  "store_valid store = (distinct (map d_id store) \<and> list_all (\<lambda>d. doc_errors d = []) store)"

text \<open>Every call is served at least twice: each call made its query and its save.\<close>

definition serves_all :: "nat list \<Rightarrow> nat \<Rightarrow> bool" where
  "serves_all schedule n = list_all (\<lambda>i. 2 \<le> count_list schedule i) [0..<n]"

text \<open>
  A structured outcome: success with the action \<open>created\<close> or \<open>updated\<close> and no error, or
  no success with the action \<open>failed\<close> and an error.
\<close>

definition structured :: "process_result \<Rightarrow> bool" where
  "structured r =
     ((success r \<and> (action r = Created \<or> action r = Updated) \<and> error r = None)
      \<or> (\<not> success r \<and> action r = Failed_action \<and> error r \<noteq> None))"

text \<open>How far a call is: 0 before its query, 1 before its save, 2 when it has settled.\<close>

fun progress :: "call_state \<Rightarrow> nat" where
  "progress Pending = 0"
| "progress (Found f) = 1"
| "progress (Done r) = 2"
| "progress (Thrown e) = 2"

text \<open>Every call that is done has a structured outcome.\<close>

definition calls_ok :: "call_state list \<Rightarrow> bool" where
  "calls_ok calls = list_all (\<lambda>c. case c of Done r \<Rightarrow> structured r | _ \<Rightarrow> True) calls"

subsection \<open>A batch without one of its candidates\<close>

text \<open>
  The order in which the store serves the other calls when call \<open>k\<close> is taken out of the
  batch: the requests of call \<open>k\<close> are left out, and the calls after it move up by one.
\<close>

definition without :: "nat \<Rightarrow> nat list \<Rightarrow> nat list" where
  "without k schedule = map (\<lambda>i. if k < i then i - 1 else i) (filter (\<lambda>i. i \<noteq> k) schedule)"

section \<open>Concrete inputs\<close>

text \<open>A normalized job, an empty world with a reachable broker, and the same with the broker down.\<close>

definition job_a :: normalized_job where
  "job_a = \<lparr> n_externalId = ''a'', n_title = ''Engineer'', n_company = ''ACME'',
             n_category = ''General'', n_type = JStr ''Other'', n_location = ''Remote'',
             n_description = ''Build things'', n_url = ''http://feed.example/a'',
             n_postedAt = 5, n_updatedAt = 5 \<rparr>"

definition world0 :: world where
  "world0 = \<lparr> importLogs = [], queue = [], broker_down = None \<rparr>"

definition world_down :: world where
  "world_down = \<lparr> importLogs = [], queue = [], broker_down = Some ''ECONNREFUSED'' \<rparr>"

text \<open>
  Feed documents: an array with three elements that also carries an RSS path with two
  items, and one document for every other shape the extractor tests.
\<close>

definition item_x :: js where
  "item_x = JObj [(''title'', JStr ''Dev Ops!''), (''company'', JStr ''ACME'')]"




definition doc_job :: js where
  "doc_job = JObj [(''rss'', JObj [(''channel'', JStr [])]), (''job'', item_x)]"





text \<open>A feed that answers every URL with one job, and the clock of one run.\<close>

definition env1 :: env where
  "env1 = \<lparr> JOB_FEED_URLS = Some ''http://a.b/c'',
            fetchFromURL = (\<lambda>u. \<lparr> fr_url = u, fr_data = doc_job, fr_success = True,
                                  fr_error = None \<rparr>),
            parseDate = (\<lambda>d. None),
            startTime = 100, fetchTime = 105, endTime = 130 \<rparr>"

text \<open>The job \<open>normalizeJob\<close> makes of \<open>item_x\<close> fetched from \<open>http://a.b/c\<close> at time 105.\<close>

definition job_x :: normalized_job where
  "job_x = \<lparr> n_externalId = ''http---a-b-c-dev-ops--acme'', n_title = ''Dev Ops!'',
             n_company = ''ACME'', n_category = ''General'', n_type = JStr ''Other'',
             n_location = ''Remote'', n_description = [], n_url = ''http://a.b/c'',
             n_postedAt = 105, n_updatedAt = 105 \<rparr>"

text \<open>A collection of four logs, three of them completed and one failed.\<close>

definition log_with :: "log_status \<Rightarrow> import_log" where
  "log_with st = \<lparr> fileName = ''http://a.b/c'', timestamp = 100, totalFetched = 0, newJobs = 0,
                   updatedJobs = 0, failedJobs = 0, failedReasons = [], duration = 30,
                   status = st \<rparr>"

definition world_3of4 :: world where
  "world_3of4 = \<lparr> importLogs = [log_with Completed, log_with Failed, log_with Completed,
                                 log_with Completed],
                  queue = [], broker_down = None \<rparr>"

text \<open>
  Candidates: one with every property the schema requires; the same without a
  description; one whose \<open>externalId\<close> is that of one stored document and whose \<open>url\<close> is
  that of another.
\<close>

definition cand_a :: job_data where
  "cand_a = \<lparr> externalId = Some ''a'', title = Some ''Engineer'', company = Some ''ACME'',
              category = None, type = None, location = None,
              description = Some ''Build things'', url = Some ''http://x/a'',
              postedAt = None, updatedAt = None \<rparr>"

definition cand_nodesc :: job_data where
  "cand_nodesc = cand_a\<lparr> description := None \<rparr>"

definition doc_1 :: job_doc where
  "doc_1 = \<lparr> d_id = 1, d_externalId = ''a'', d_title = ''Engineer'', d_company = ''ACME'',
             d_category = ''General'', d_type = ''Other'', d_location = ''Remote'',
             d_description = ''Build things'', d_url = ''http://x/1'',
             d_postedAt = 5, d_updatedAt = 5, d_createdAt = 5 \<rparr>"

definition doc_2 :: job_doc where
  "doc_2 = doc_1\<lparr> d_id := 2, d_externalId := ''b'', d_url := ''http://x/2'' \<rparr>"

definition cand_a2 :: job_data where
  "cand_a2 = cand_a\<lparr> url := Some ''http://x/2'' \<rparr>"

text \<open>A candidate as the normalizer makes it of a feed item that has no description.\<close>

definition cand_b :: job_data where
  "cand_b = \<lparr> externalId = Some ''b'', title = Some ''Untitled Position'',
              company = Some ''Unknown Company'', category = Some ''General'',
              type = Some ''Other'', location = Some ''Remote'', description = Some [],
              url = Some ''http://x/b'', postedAt = Some 7, updatedAt = Some 7 \<rparr>"

text \<open>
  A batch of ten candidates with different keys, the fourth without a company; and the same
  batch with the description of the eighth empty, as the normalizer leaves it for a feed
  item that has none.
\<close>

definition cand_k :: "nat \<Rightarrow> job_data" where
  "cand_k k = cand_a\<lparr> externalId := Some [digit_char k],
                        url := Some (''http://x/'' @ [digit_char k]) \<rparr>"

definition cand_nocompany :: job_data where
  "cand_nocompany = (cand_k 3)\<lparr> company := None \<rparr>"

definition batch10 :: "job_data list" where
  "batch10 = map cand_k [0..<3] @ cand_nocompany # map cand_k [4..<10]"

definition batch10_nodesc :: "job_data list" where
  "batch10_nodesc = batch10[7 := (cand_k 7)\<lparr> description := Some [] \<rparr>]"

section \<open>Lemmas about the error plumbing\<close>


lemma bind_err_Inl [simp]: "bind_err (Inl e) f = Inl e"
  by (simp add: bind_err_def)


section \<open>The queue's idempotency key\<close>

lemma queue_addBulk_ids:
  "set (map q_jobId (queue_addBulk bs es)) = set (map q_jobId es) \<union> set (map q_jobId bs)"
  by (induction bs arbitrary: es) auto

lemma queue_addBulk_absorb:
  "set (map q_jobId bs) \<subseteq> set (map q_jobId es) \<Longrightarrow> queue_addBulk bs es = es"
  by (induction bs arbitrary: es) auto

lemma queue_addBulk_again:
  "queue_addBulk bs (queue_addBulk bs es) = queue_addBulk bs es"
  using queue_addBulk_ids [of bs es] by (intro queue_addBulk_absorb) auto

text \<open>
  Claim C4, as the code has it. For every list of candidates and every import log id,
  \<open>addBulkJobsToQueue\<close> gives each item the job id \<open>importLogId + "-" + externalId\<close>: the
  separator is a hyphen, not a colon. A bulk submission that the broker accepted leaves
  every one of these ids in the queue, and submitting the same candidates of the same run
  again leaves the queue as it is.
\<close>

theorem bulk_idempotency_key:
  "map q_jobId (bulkJobs jobs importLogId)
     = map (\<lambda>jobData. importLogId @ ''-'' @ n_externalId jobData) jobs
   \<and> (addBulkJobsToQueue jobs importLogId w = Inr w1
        \<longrightarrow> set (map q_jobId (bulkJobs jobs importLogId)) \<subseteq> set (map q_jobId (queue w1))
          \<and> addBulkJobsToQueue jobs importLogId w1 = Inr w1)"
proof (intro conjI impI)
  show "map q_jobId (bulkJobs jobs importLogId)
          = map (\<lambda>jobData. importLogId @ ''-'' @ n_externalId jobData) jobs"
    by (simp add: bulkJobs_def comp_def)
next
  assume a: "addBulkJobsToQueue jobs importLogId w = Inr w1"
  then have up: "broker_down w = None"
    and w1: "w1 = w\<lparr> queue := queue_addBulk (bulkJobs jobs importLogId) (queue w) \<rparr>"
    by (auto simp: addBulkJobsToQueue_def split: option.splits)
  show "set (map q_jobId (bulkJobs jobs importLogId)) \<subseteq> set (map q_jobId (queue w1))"
    using queue_addBulk_ids [of "bulkJobs jobs importLogId" "queue w"] by (simp add: w1)
  show "addBulkJobsToQueue jobs importLogId w1 = Inr w1"
    by (simp add: addBulkJobsToQueue_def w1 up queue_addBulk_again)
qed

text \<open>
  The same at a concrete input: one candidate submitted twice in one call for the run
  \<open>64f0\<close> is queued once, under the id \<open>64f0-a\<close>, and a second call changes nothing.
\<close>

theorem bulk_idempotency_key_witness:
  "addBulkJobsToQueue [job_a, job_a] ''64f0'' world0 = Inr (world0\<lparr> queue := bulkJobs [job_a] ''64f0'' \<rparr>)
   \<and> map q_jobId (queue (world0\<lparr> queue := bulkJobs [job_a] ''64f0'' \<rparr>)) = [''64f0-a'']
   \<and> addBulkJobsToQueue [job_a, job_a] ''64f0'' (world0\<lparr> queue := bulkJobs [job_a] ''64f0'' \<rparr>)
       = Inr (world0\<lparr> queue := bulkJobs [job_a] ''64f0'' \<rparr>)"
proof -
  have h: "addBulkJobsToQueue [job_a, job_a] ''64f0'' world0
             = Inr (world0\<lparr> queue := bulkJobs [job_a] ''64f0'' \<rparr>)"
    by (simp add: addBulkJobsToQueue_def world0_def bulkJobs_def)
  from bulk_idempotency_key [of "[job_a, job_a]" "''64f0''" world0
      "world0\<lparr> queue := bulkJobs [job_a] ''64f0'' \<rparr>"] h
  show ?thesis by (simp add: bulkJobs_def job_a_def)
qed

text \<open>
  The key with a colon is not the key of the code: for the run \<open>64f0\<close> and the candidate
  \<open>a\<close> the job id is \<open>64f0-a\<close>.
\<close>

theorem bulk_idempotency_key_colon_counterexample:
  "map q_jobId (bulkJobs [job_a] ''64f0'') = [''64f0-a'']
   \<and> map q_jobId (bulkJobs [job_a] ''64f0'') \<noteq> [''64f0'' @ '':'' @ n_externalId job_a]"
  by (simp add: bulkJobs_def job_a_def)

section \<open>Type normalisation\<close>

text \<open>
  Claim C8. The three spellings of the claim normalise to \<open>Full-time\<close> and an unknown word
  to \<open>Other\<close>. The type strings \<open>constructor\<close> and \<open>__proto__\<close> match no key of the lookup
  table, yet the property read on the object literal finds the inherited members, and
  \<open>normalizeJobType\<close> returns the function \<open>Object\<close> and the prototype object instead of
  \<open>Other\<close>.
\<close>

theorem normalizeJobType_inherited_member:
  "normalizeJobType ''constructor'' = JNative ''Object''
   \<and> normalizeJobType ''__proto__'' = JObj []
   \<and> ''constructor'' \<notin> set typeMap_keys
   \<and> ''__proto__'' \<notin> set typeMap_keys
   \<and> normalizeJobType ''Full Time'' = JStr ''Full-time''
   \<and> normalizeJobType ''full-time'' = JStr ''Full-time''
   \<and> normalizeJobType ''FULLTIME'' = JStr ''Full-time''
   \<and> normalizeJobType ''wizard'' = JStr ''Other''"
  by code_simp

section \<open>Shape precedence of the extractor\<close>






section \<open>The synthesized identifier\<close>














section \<open>The order of enqueue and accounting\<close>

text \<open>
  The durable states of a run that fetched at least one job, as an auditor observes them.
\<close>

lemma runImport_history:
  assumes "label \<noteq> []"
    and "fetchFromMultipleURLs (fetchFromURL e) (fetchTime e) (parseDate e) feedUrls = (jobs, errors)"
    and "jobs \<noteq> []"
  shows "map (observe (length (importLogs w0))) (states (runImport e label feedUrls w0)) =
           (case broker_down w0 of
              None \<Rightarrow>
                [(None, map q_jobId (queue w0)),
                 (Some (0, In_progress, []), map q_jobId (queue w0)),
                 (Some (0, In_progress, []),
                  map q_jobId (queue_addBulk (bulkJobs jobs (id_string (length (importLogs w0)))) (queue w0))),
                 (Some (int (length jobs), In_progress, []),
                  map q_jobId (queue_addBulk (bulkJobs jobs (id_string (length (importLogs w0)))) (queue w0)))]
            | Some m \<Rightarrow>
                [(None, map q_jobId (queue w0)),
                 (Some (0, In_progress, []), map q_jobId (queue w0)),
                 (Some (0, Failed, [Some m]), map q_jobId (queue w0))])"
  using assms
  by (auto simp: runImport_def createImportLog_def Let_def addBulkJobsToQueue_def
      updateImportLog_def markImportFailed_def observe_def queued_stats_def num_or_def
      nth_append split: option.splits)

lemma runImport_caught:
  assumes "label \<noteq> []"
    and "fetchFromMultipleURLs (fetchFromURL e) (fetchTime e) (parseDate e) feedUrls = (jobs, errors)"
    and "jobs \<noteq> []"
  shows "caught (runImport e label feedUrls w0) = map_option Error (broker_down w0)"
    and "fetched (runImport e label feedUrls w0) = Some (jobs, errors)"
  using assms
  by (auto simp: runImport_def createImportLog_def Let_def addBulkJobsToQueue_def
      updateImportLog_def split: option.splits)

lemma split_comma_not_Nil: "split_comma s \<noteq> []"
  by (induction s) (auto split: list.splits)

lemma join_comma_space_Nil: "join_comma_space [] = []"
  by (simp add: join_comma_space_def)

text \<open>
  Claim C1, as the code has it. In both entry points, when at least one job candidate was
  fetched, the bulk enqueue is attempted before the accounting update of the fetch phase.
  The run goes through these durable states: the state before the run; the new log, in
  progress with \<open>totalFetched\<close> 0; then, when the broker accepts the jobs, the queue holding
  the candidates while \<open>totalFetched\<close> is still 0; and last \<open>totalFetched\<close> set to the number
  of jobs fetched. When the broker refuses, the last state is the log marked failed with
  the broker's message as its only failure reason, \<open>totalFetched\<close> still 0 and the queue
  as it was. A run that stops between the two steps leaves queued candidates and no
  \<open>totalFetched\<close>.
\<close>

theorem enqueue_precedes_accounting:
  "(JOB_FEED_URLS e = Some s
     \<and> fetchFromMultipleURLs (fetchFromURL e) (fetchTime e) (parseDate e)
         (map trim (split_comma s)) = (jobs, errors)
     \<and> jobs \<noteq> []
     \<longrightarrow> map (observe (length (importLogs w0))) (automatedImport e w0) =
          (case broker_down w0 of
             None \<Rightarrow>
               [(None, map q_jobId (queue w0)),
                (Some (0, In_progress, []), map q_jobId (queue w0)),
                (Some (0, In_progress, []),
                 map q_jobId (queue_addBulk (bulkJobs jobs (id_string (length (importLogs w0)))) (queue w0))),
                (Some (int (length jobs), In_progress, []),
                 map q_jobId (queue_addBulk (bulkJobs jobs (id_string (length (importLogs w0)))) (queue w0)))]
           | Some m \<Rightarrow>
               [(None, map q_jobId (queue w0)),
                (Some (0, In_progress, []), map q_jobId (queue w0)),
                (Some (0, Failed, [Some m]), map q_jobId (queue w0))]))
   \<and> (join_comma_space urls \<noteq> []
     \<and> fetchFromMultipleURLs (fetchFromURL e) (fetchTime e) (parseDate e) urls = (jobs', errors')
     \<and> jobs' \<noteq> []
     \<longrightarrow> map (observe (length (importLogs w0))) (snd (startImport (Some urls) e w0)) =
          (case broker_down w0 of
             None \<Rightarrow>
               [(None, map q_jobId (queue w0)),
                (Some (0, In_progress, []), map q_jobId (queue w0)),
                (Some (0, In_progress, []),
                 map q_jobId (queue_addBulk (bulkJobs jobs' (id_string (length (importLogs w0)))) (queue w0))),
                (Some (int (length jobs'), In_progress, []),
                 map q_jobId (queue_addBulk (bulkJobs jobs' (id_string (length (importLogs w0)))) (queue w0)))]
           | Some m \<Rightarrow>
               [(None, map q_jobId (queue w0)),
                (Some (0, In_progress, []), map q_jobId (queue w0)),
                (Some (0, Failed, [Some m]), map q_jobId (queue w0))])
        \<and> r_code (fst (startImport (Some urls) e w0))
            = (case broker_down w0 of None \<Rightarrow> 202 | Some m \<Rightarrow> 500))"
proof (intro conjI impI)
  assume a: "JOB_FEED_URLS e = Some s
     \<and> fetchFromMultipleURLs (fetchFromURL e) (fetchTime e) (parseDate e)
         (map trim (split_comma s)) = (jobs, errors)
     \<and> jobs \<noteq> []"
  have l: "''Automated: '' @ join_comma_space (map trim (split_comma s)) \<noteq> []" by simp
  from a have auto_eq: "automatedImport e w0 =
      states (runImport e (''Automated: '' @ join_comma_space (map trim (split_comma s)))
                (map trim (split_comma s)) w0)"
    by (simp add: automatedImport_def Let_def split_comma_not_Nil)
  show "map (observe (length (importLogs w0))) (automatedImport e w0) =
          (case broker_down w0 of
             None \<Rightarrow>
               [(None, map q_jobId (queue w0)),
                (Some (0, In_progress, []), map q_jobId (queue w0)),
                (Some (0, In_progress, []),
                 map q_jobId (queue_addBulk (bulkJobs jobs (id_string (length (importLogs w0)))) (queue w0))),
                (Some (int (length jobs), In_progress, []),
                 map q_jobId (queue_addBulk (bulkJobs jobs (id_string (length (importLogs w0)))) (queue w0)))]
           | Some m \<Rightarrow>
               [(None, map q_jobId (queue w0)),
                (Some (0, In_progress, []), map q_jobId (queue w0)),
                (Some (0, Failed, [Some m]), map q_jobId (queue w0))])"
    unfolding auto_eq using a by (intro runImport_history [OF l]) auto
next
  assume b: "join_comma_space urls \<noteq> []
     \<and> fetchFromMultipleURLs (fetchFromURL e) (fetchTime e) (parseDate e) urls = (jobs', errors')
     \<and> jobs' \<noteq> []"
  then have ne: "urls \<noteq> []" using join_comma_space_Nil by auto
  have st: "snd (startImport (Some urls) e w0) = states (runImport e (join_comma_space urls) urls w0)"
    using ne by (simp add: startImport_def Let_def)
  show "map (observe (length (importLogs w0))) (snd (startImport (Some urls) e w0)) =
          (case broker_down w0 of
             None \<Rightarrow>
               [(None, map q_jobId (queue w0)),
                (Some (0, In_progress, []), map q_jobId (queue w0)),
                (Some (0, In_progress, []),
                 map q_jobId (queue_addBulk (bulkJobs jobs' (id_string (length (importLogs w0)))) (queue w0))),
                (Some (int (length jobs'), In_progress, []),
                 map q_jobId (queue_addBulk (bulkJobs jobs' (id_string (length (importLogs w0)))) (queue w0)))]
           | Some m \<Rightarrow>
               [(None, map q_jobId (queue w0)),
                (Some (0, In_progress, []), map q_jobId (queue w0)),
                (Some (0, Failed, [Some m]), map q_jobId (queue w0))])"
    unfolding st using b by (intro runImport_history) auto
  show "r_code (fst (startImport (Some urls) e w0))
            = (case broker_down w0 of None \<Rightarrow> 202 | Some m \<Rightarrow> 500)"
    using b ne runImport_caught [of "join_comma_space urls" e urls jobs' errors' w0]
    by (auto simp: startImport_def Let_def split: option.splits)
qed

lemma fetch_env1:
  "fetchFromMultipleURLs (fetchFromURL env1) (fetchTime env1) (parseDate env1) [''http://a.b/c'']
     = ([job_x], [])"
  by code_simp

text \<open>
  With the broker down, the scheduled run of \<open>env1\<close> ends with the log marked failed and
  nothing recorded or queued; with the broker up, the manual run queues its job, then
  records it, and answers 202.
\<close>

theorem enqueue_precedes_accounting_witness:
  "map (observe 0) (automatedImport env1 world_down) =
     [(None, []),
      (Some (0, In_progress, []), []),
      (Some (0, Failed, [Some ''ECONNREFUSED'']), [])]
   \<and> map (observe 0) (snd (startImport (Some [''http://a.b/c'']) env1 world0)) =
     [(None, []),
      (Some (0, In_progress, []), []),
      (Some (0, In_progress, []), [''0-http---a-b-c-dev-ops--acme'']),
      (Some (1, In_progress, []), [''0-http---a-b-c-dev-ops--acme''])]
   \<and> r_code (fst (startImport (Some [''http://a.b/c'']) env1 world0)) = 202"
proof -
  have u: "map trim (split_comma ''http://a.b/c'') = [''http://a.b/c'']"
    by code_simp
  have e: "JOB_FEED_URLS env1 = Some ''http://a.b/c''"
    by (simp add: env1_def)
  have j: "join_comma_space [''http://a.b/c''] \<noteq> []"
    by (simp add: join_comma_space_def)
  have q: "map q_jobId (queue_addBulk (bulkJobs [job_x] (id_string 0)) [])
             = [''0-http---a-b-c-dev-ops--acme'']"
    by code_simp
  from enqueue_precedes_accounting [of env1 "''http://a.b/c''" "[job_x]" "[]" world_down]
    e u fetch_env1
  have 1: "map (observe 0) (automatedImport env1 world_down) =
     [(None, []),
      (Some (0, In_progress, []), []),
      (Some (0, Failed, [Some ''ECONNREFUSED'']), [])]"
    by (simp add: world_down_def)
  from enqueue_precedes_accounting [of env1 _ _ _ world0 "[''http://a.b/c'']" "[job_x]" "[]"]
    j fetch_env1 q
  have 2: "map (observe 0) (snd (startImport (Some [''http://a.b/c'']) env1 world0)) =
     [(None, []),
      (Some (0, In_progress, []), []),
      (Some (0, In_progress, []), [''0-http---a-b-c-dev-ops--acme'']),
      (Some (1, In_progress, []), [''0-http---a-b-c-dev-ops--acme''])]
   \<and> r_code (fst (startImport (Some [''http://a.b/c'']) env1 world0)) = 202"
    by (simp add: world0_def)
  from 1 2 show ?thesis by simp
qed

text \<open>
  The scheduled and the manual run of \<open>env1\<close>, which fetch one job: the job is in the queue
  while \<open>totalFetched\<close> is still 0, and no state has \<open>totalFetched\<close> recorded with the queue
  still empty.
\<close>

theorem accounting_before_enqueue_counterexample:
  "map (observe 0) (automatedImport env1 world0) =
     [(None, []),
      (Some (0, In_progress, []), []),
      (Some (0, In_progress, []), [''0-http---a-b-c-dev-ops--acme'']),
      (Some (1, In_progress, []), [''0-http---a-b-c-dev-ops--acme''])]
   \<and> map (observe 0) (snd (startImport None env1 world0)) =
     [(None, []),
      (Some (0, In_progress, []), []),
      (Some (0, In_progress, []), [''0-http---a-b-c-dev-ops--acme'']),
      (Some (1, In_progress, []), [''0-http---a-b-c-dev-ops--acme''])]
   \<and> (Some (1, In_progress, []), []) \<notin> set (map (observe 0) (automatedImport env1 world0))
   \<and> (Some (1, In_progress, []), []) \<notin> set (map (observe 0) (snd (startImport None env1 world0)))"
  by code_simp

section \<open>The success rate\<close>

subsection \<open>Rounding to a double\<close>

lemma round_half_even_bound: "\<bar>of_int (round_half_even s) - s\<bar> \<le> 1 / 2"
proof -
  have "of_int \<lfloor>s\<rfloor> \<le> s" "s < of_int \<lfloor>s\<rfloor> + 1" by linarith+
  then show ?thesis
    unfolding round_half_even_def Let_def by (auto simp: abs_le_iff)
qed

lemma round_half_even_of_int [simp]: "round_half_even (of_int m) = m"
  by (simp add: round_half_even_def)

lemma pow2_of_bitlen:
  assumes "0 < (a::int)"
  shows "(2::rat) powi (bitlen a - 1) \<le> of_int a" "of_int a < (2::rat) powi (bitlen a)"
proof -
  from bitlen_bounds [OF assms] have 1: "2 ^ nat (bitlen a - 1) \<le> a" and 2: "a < 2 ^ nat (bitlen a)"
    by auto
  have ge1: "1 \<le> bitlen a" using assms by (auto simp: bitlen_alt_def)
  from 1 have "(of_int (2 ^ nat (bitlen a - 1)) :: rat) \<le> of_int a" by (rule of_int_le_iff [THEN iffD2])
  then show "(2::rat) powi (bitlen a - 1) \<le> of_int a"
    using ge1 by (simp add: power_int_def)
  from 2 have "(of_int a :: rat) < of_int (2 ^ nat (bitlen a))" by (rule of_int_less_iff [THEN iffD2])
  then show "of_int a < (2::rat) powi (bitlen a)"
    using ge1 by (simp add: power_int_def)
qed

lemma binary_exponent_bounds:
  assumes "0 < q"
  shows "2 powi (binary_exponent q) \<le> q" "q < 2 powi (binary_exponent q + 1)"
proof -
  obtain a b where ab: "quotient_of q = (a, b)" by (cases "quotient_of q")
  then have b: "0 < b" and q: "q = of_int a / of_int b"
    using quotient_of_denom_pos quotient_of_div by auto
  with assms have a: "0 < a"
    by (simp add: zero_less_divide_iff)
  define k where "k = bitlen a - bitlen b"
  note A = pow2_of_bitlen [OF a] and B = pow2_of_bitlen [OF b]
  have bpos: "(0::rat) < of_int b" using b by simp
  have up: "q < 2 powi (k + 1)"
  proof -
    have "q * of_int b = of_int a" using q bpos by simp
    also have "\<dots> < 2 powi (bitlen a)" by (rule A)
    also have "\<dots> = 2 powi (k + 1) * 2 powi (bitlen b - 1)"
      by (simp add: k_def flip: power_int_add)
    also have "\<dots> \<le> 2 powi (k + 1) * of_int b"
      using B(1) by (intro mult_left_mono) auto
    finally show ?thesis using bpos by simp
  qed
  have lo: "2 powi (k - 1) < q"
  proof -
    have "(2::rat) powi (k - 1) * of_int b < 2 powi (k - 1) * 2 powi (bitlen b)"
      using B(2) by (intro mult_strict_left_mono) auto
    also have "\<dots> = 2 powi (bitlen a - 1)"
      by (simp add: k_def flip: power_int_add)
    also have "\<dots> \<le> of_int a" by (rule A)
    also have "\<dots> = q * of_int b" using q bpos by simp
    finally show ?thesis using bpos by simp
  qed
  have be: "binary_exponent q = (if 2 powi k \<le> q then k else k - 1)"
    by (simp add: binary_exponent_def ab k_def Let_def)
  show "2 powi (binary_exponent q) \<le> q"
    using lo by (auto simp: be)
  show "q < 2 powi (binary_exponent q + 1)"
    using up by (auto simp: be not_le)
qed


text \<open>Rounding to a double moves a positive value by at most the fraction \<open>2^-53\<close> of it.\<close>

lemma double_round_error:
  assumes "0 < q"
  shows "\<bar>double_round q - q\<bar> \<le> q / 2 ^ 53"
proof -
  define e where "e = binary_exponent q - 52"
  define s where "s = q / 2 powi e"
  define m where "m = round_half_even s"
  have pe: "(0::rat) < 2 powi e" by simp
  have dr: "double_round q = of_int m * 2 powi e"
    using assms by (simp add: double_round_def e_def s_def m_def Let_def)
  have qs: "q = s * 2 powi e" by (simp add: s_def)
  have "\<bar>double_round q - q\<bar> = \<bar>of_int m - s\<bar> * 2 powi e"
    unfolding dr by (subst qs) (simp add: abs_mult flip: left_diff_distrib)
  also have "\<dots> \<le> 1 / 2 * 2 powi e"
    using round_half_even_bound [of s] pe unfolding m_def by (intro mult_right_mono) auto
  also have "\<dots> = 2 powi (binary_exponent q) / 2 ^ 53"
    by (simp add: e_def power_int_diff)
  also have "\<dots> \<le> q / 2 ^ 53"
    using binary_exponent_bounds(1) [OF assms] by (intro divide_right_mono) auto
  finally show ?thesis .
qed

text \<open>A value with a significand of at most 53 bits is a double: rounding keeps it.\<close>

lemma double_round_exact:
  assumes q: "q = of_int m * 2 powi e'" and m: "0 < m" "m < 2 ^ 53"
  shows "double_round q = q"
proof -
  have qpos: "0 < q" using q m by simp
  define k where "k = binary_exponent q"
  have "2 powi k \<le> q" using binary_exponent_bounds(1) [OF qpos] by (simp add: k_def)
  also have "q < 2 ^ 53 * 2 powi e'"
  proof -
    have "(of_int m :: rat) < of_int (2 ^ 53)" using m(2) by (simp only: of_int_less_iff)
    then have "(of_int m :: rat) < 2 ^ 53" by simp
    then show ?thesis unfolding q by (intro mult_strict_right_mono) auto
  qed
  also have "\<dots> = 2 powi (53 + e')"
    by (simp add: power_int_add)
  finally have lt: "(2::rat) powi k < 2 powi (53 + e')" .
  have klt: "k < 53 + e'"
  proof (rule ccontr)
    assume "\<not> k < 53 + e'"
    then have "(2::rat) powi (53 + e') \<le> 2 powi k"
      by (intro power_int_increasing) auto
    with lt show False by simp
  qed
  define d where "d = nat (e' - (k - 52))"
  have d: "e' = (k - 52) + int d" using klt by (simp add: d_def)
  have p: "(2::rat) powi e' = 2 powi (k - 52) * 2 ^ d"
    by (subst d) (simp add: power_int_add)
  have s: "q / 2 powi (k - 52) = of_int (m * 2 ^ d)"
    unfolding q p by simp
  have "double_round q = of_int (round_half_even (q / 2 powi (k - 52))) * 2 powi (k - 52)"
    using qpos unfolding double_round_def Let_def k_def by simp
  also have "\<dots> = of_int (m * 2 ^ d) * 2 powi (k - 52)"
    unfolding s round_half_even_of_int ..
  also have "\<dots> = q"
    unfolding q p by simp
  finally show ?thesis .
qed


lemma double_round_0 [simp]: "double_round 0 = 0"
  by (simp add: double_round_def)

text \<open>
  For up to \<open>2^36\<close> runs the two roundings cannot move the percentage across a boundary
  between two-decimal values: the integer \<open>toFixed\<close> picks is a nearest integer to the
  exact value of \<open>10000 * completed / total\<close>.
\<close>

lemma success_rate_nearest:
  fixes c t :: nat
  assumes t: "0 < t" "t < 2 ^ 36" and c: "c \<le> t"
  defines "n \<equiv> \<lfloor>double_round (double_round (of_nat c / of_nat t) * 100) * 100 + 1 / 2\<rfloor>"
  shows "\<bar>of_int n - 10000 * of_nat c / of_nat t\<bar> \<le> (1 / 2 :: rat)"
proof (cases "c = 0")
  case True
  have "\<lfloor>1 / 2 :: rat\<rfloor> = 0" by (rule floor_unique) auto
  with True show ?thesis by (simp add: n_def)
next
  case False
  define q :: rat where "q = of_nat c / of_nat t"
  define x where "x = double_round q"
  define y where "y = double_round (x * 100)"
  define E :: rat where "E = 10000 * of_nat c / of_nat t"
  have tpos: "(0::rat) < of_nat t" using t by simp
  have q0: "0 < q" using False t by (simp add: q_def)
  have q1: "q \<le> 1" using c t by (simp add: q_def)
  have ex: "\<bar>x - q\<bar> \<le> q / 2 ^ 53" unfolding x_def by (rule double_round_error [OF q0])
  have x0: "0 < x"
  proof -
    have "q / 2 ^ 53 < q" using q0 by (simp add: divide_less_eq)
    with ex show ?thesis by linarith
  qed
  have xq: "x \<le> 2" using ex q0 q1
  proof -
    have "q / 2 ^ 53 \<le> 1" using q0 q1 by (simp add: divide_le_eq)
    with ex q1 show ?thesis by linarith
  qed
  have ey: "\<bar>y - x * 100\<bar> \<le> x * 100 / 2 ^ 53"
    unfolding y_def using x0 by (intro double_round_error) simp
  have e1: "q / 2 ^ 53 \<le> 1 / 2 ^ 53" using q1 by (intro divide_right_mono) auto
  have e2: "x * 100 / 2 ^ 53 \<le> 200 / 2 ^ 53" using xq by (intro divide_right_mono) auto
  have Eq: "E = 10000 * q" by (simp add: E_def q_def)
  have "y * 100 - E = 100 * (y - x * 100) + 10000 * (x - q)"
    unfolding Eq by simp
  then have "\<bar>y * 100 - E\<bar> \<le> \<bar>100 * (y - x * 100)\<bar> + \<bar>10000 * (x - q)\<bar>"
    by (simp only: abs_triangle_ineq)
  moreover have "\<bar>100 * (y - x * 100)\<bar> = 100 * \<bar>y - x * 100\<bar>"
    by (subst abs_mult) simp
  moreover have "\<bar>10000 * (x - q)\<bar> = 10000 * \<bar>x - q\<bar>"
    by (subst abs_mult) simp
  ultimately have "\<bar>y * 100 - E\<bar> \<le> 100 * \<bar>y - x * 100\<bar> + 10000 * \<bar>x - q\<bar>"
    by (simp only:)
  also have "\<dots> \<le> 100 * (200 / 2 ^ 53) + 10000 * (1 / 2 ^ 53)"
  proof (intro add_mono mult_left_mono)
    show "\<bar>y - x * 100\<bar> \<le> 200 / 2 ^ 53" using ey e2 by (rule order_trans)
    show "\<bar>x - q\<bar> \<le> 1 / 2 ^ 53" using ex e1 by (rule order_trans)
  qed simp_all
  also have "\<dots> < 1 / 2 ^ 38"
    by simp
  finally have d1: "\<bar>y * 100 - E\<bar> < 1 / 2 ^ 38" .
  have n: "n = \<lfloor>y * 100 + 1 / 2\<rfloor>" by (simp add: n_def y_def x_def q_def)
  have d2: "\<bar>of_int n - y * 100\<bar> \<le> 1 / 2"
    unfolding n by linarith
  from d1 d2 have d3: "\<bar>of_int n - E\<bar> < 1 / 2 + 1 / 2 ^ 38" by linarith
  define D :: int where "D = 2 * int t * n - 20000 * int c"
  have DE: "(of_int D :: rat) = 2 * of_nat t * (of_int n - E)"
    using tpos by (simp add: D_def E_def field_simps)
  have "\<bar>of_int D :: rat\<bar> = 2 * of_nat t * \<bar>of_int n - E\<bar>"
    unfolding DE using tpos by (simp add: abs_mult)
  also have "\<dots> < 2 * of_nat t * (1 / 2 + 1 / 2 ^ 38)"
    using d3 tpos by (intro mult_strict_left_mono) auto
  also have "\<dots> = of_nat t + of_nat t / 2 ^ 37"
    by (simp add: field_simps)
  also have "\<dots> < of_nat t + 1"
  proof -
    have "(of_nat t :: rat) < of_nat (2 ^ 36)" using t(2) by (simp only: of_nat_less_iff)
    then have "(of_nat t :: rat) < 2 ^ 36" by simp
    then have "(of_nat t :: rat) / 2 ^ 37 < 1" by (simp add: divide_less_eq)
    then show ?thesis by simp
  qed
  finally have "\<bar>of_int D :: rat\<bar> < of_int (int t + 1)" by simp
  then have "\<bar>D\<bar> < int t + 1"
    by (metis of_int_abs of_int_less_iff)
  then have "\<bar>D\<bar> \<le> int t" by simp
  then have "\<bar>of_int D :: rat\<bar> \<le> of_nat t"
    by (metis of_int_abs of_int_le_iff of_int_of_nat_eq)
  then have "2 * of_nat t * \<bar>of_int n - E\<bar> \<le> (of_nat t :: rat)"
    unfolding DE using tpos by (simp add: abs_mult)
  then have "\<bar>of_int n - E\<bar> \<le> 1 / 2"
    using tpos by (simp add: field_simps)
  then show ?thesis by (simp add: E_def)
qed

subsection \<open>The text of the rate\<close>

lemma digits_0: "digits 0 = ''0''"
  by (subst digits.simps) (simp add: digit_char_def)

lemma digits_less_10: "n < 10 \<Longrightarrow> digits n = [digit_char n]"
  by (subst digits.simps) simp

lemma digits_ge_10: "10 \<le> n \<Longrightarrow> digits n = digits (n div 10) @ [digit_char (n mod 10)]"
  by (subst digits.simps) simp

lemma digits_not_Nil: "digits n \<noteq> []"
  by (subst digits.simps) simp

lemma fixed2_decimal:
  assumes "0 \<le> n"
  shows "fixed2 n = digits (nat n div 100) @ ''.''
           @ [digit_char (nat n div 10 mod 10), digit_char (nat n mod 10)]"
proof -
  define k where "k = nat n"
  have r2: "replicate 2 c = [c, c]" and r1: "replicate (Suc 0) c = [c]" for c :: char
    by (simp_all add: numeral_2_eq_2)
  have z: "digit_char 0 = CHR ''0''" by (simp add: digit_char_def)
  consider "k < 10" | "10 \<le> k" "k < 100" | "100 \<le> k" by linarith
  then have "(let m = digits k;
          m = (if length m \<le> 2 then replicate (3 - length m) CHR ''0'' @ m else m) in
      take (length m - 2) m @ ''.'' @ drop (length m - 2) m)
      = digits (k div 100) @ ''.'' @ [digit_char (k div 10 mod 10), digit_char (k mod 10)]"
  proof cases
    case 1
    then have a: "digits k = [digit_char k]" by (rule digits_less_10)
    from 1 have b: "k div 100 = 0" "k div 10 = 0" "k mod 10 = k" by simp_all
    show ?thesis unfolding a b Let_def by (simp add: digits_0 r2 z)
  next
    case 2
    then have "k div 10 < 10" by simp
    then have "digits (k div 10) = [digit_char (k div 10)]" by (rule digits_less_10)
    with 2 have a: "digits k = [digit_char (k div 10), digit_char (k mod 10)]"
      by (simp add: digits_ge_10 [of k])
    from 2 have b: "k div 100 = 0" "k div 10 mod 10 = k div 10" by simp_all
    show ?thesis unfolding a b Let_def by (simp add: digits_0 r1)
  next
    case 3
    then have "10 \<le> k div 10" by simp
    then have "digits (k div 10) = digits (k div 10 div 10) @ [digit_char (k div 10 mod 10)]"
      by (rule digits_ge_10)
    moreover have "k div 10 div 10 = k div 100" by (simp add: div_mult2_eq)
    ultimately have d: "digits k = digits (k div 100) @ [digit_char (k div 10 mod 10), digit_char (k mod 10)]"
      using 3 by (simp add: digits_ge_10 [of k])
    have l: "digits (k div 100) \<noteq> []" by (rule digits_not_Nil)
    then have l2: "\<not> length (digits (k div 100)) + 2 \<le> 2" by simp
    show ?thesis unfolding d Let_def using l2 by simp
  qed
  then show ?thesis by (simp add: fixed2_def k_def)
qed


lemma double_round_3_4: "double_round (3 / 4) = 3 / 4"
  by (rule double_round_exact [of _ 3 "- 2"]) simp_all

lemma double_round_75: "double_round 75 = 75"
  by (rule double_round_exact [of _ 75 0]) simp_all

lemma fixed2_7500: "fixed2 7500 = ''75.00''"
  by (simp add: fixed2_def digits.simps [of 7500] digits.simps [of 750] digits.simps [of 75]
      digits.simps [of 7] Let_def digit_char_def)

lemma toFixed2_75: "toFixed2 75 = ''75.00''"
proof -
  have "\<lfloor>75 * 100 + 1 / 2 :: rat\<rfloor> = 7500" by (rule floor_unique) auto
  then show ?thesis by (simp add: toFixed2_def fixed2_7500)
qed

text \<open>
  Claim C9. With no run at all the success rate is the number 0. With up to \<open>2^36\<close> runs
  it is the text of the percentage \<open>100 * completed / total\<close> with two digits after the
  point: the text of \<open>n / 100\<close> for an integer \<open>n\<close> that is nearest to \<open>10000 * completed /
  total\<close>, the double arithmetic of the division and the multiplication included. Three
  completed runs out of four give \<open>75.00\<close>.
\<close>

theorem calculateSuccessRate_percentage:
  fixes w :: world
  defines "completed_runs \<equiv> length (filter (\<lambda>l. status l = Completed) (importLogs w))"
    and "total_runs \<equiv> length (importLogs w)"
  shows "(total_runs = 0 \<longrightarrow> calculateSuccessRate w = RateNumber 0)
     \<and> (0 < total_runs \<and> total_runs < 2 ^ 36 \<longrightarrow>
          (\<exists>n. calculateSuccessRate w = RateText (fixed2 n) \<and> 0 \<le> n
               \<and> \<bar>of_int n - 10000 * of_nat completed_runs / of_nat total_runs\<bar> \<le> (1 / 2 :: rat)))
     \<and> (completed_runs = 3 \<and> total_runs = 4 \<longrightarrow> calculateSuccessRate w = RateText ''75.00'')"
proof (intro conjI impI)
  assume "total_runs = 0"
  then show "calculateSuccessRate w = RateNumber 0"
    by (simp add: calculateSuccessRate_def total_runs_def)
next
  assume a: "0 < total_runs \<and> total_runs < 2 ^ 36"
  define y where "y = double_round (double_round (of_nat completed_runs / of_nat total_runs) * 100)"
  define n where "n = \<lfloor>y * 100 + 1 / 2\<rfloor>"
  have cl: "completed_runs \<le> total_runs" by (simp add: completed_runs_def total_runs_def)
  have near: "\<bar>of_int n - 10000 * of_nat completed_runs / of_nat total_runs\<bar> \<le> (1 / 2 :: rat)"
    unfolding n_def y_def using a cl by (intro success_rate_nearest) auto
  have E0: "(0::rat) \<le> 10000 * of_nat completed_runs / of_nat total_runs" by simp
  have "0 \<le> n"
  proof (rule ccontr)
    assume "\<not> 0 \<le> n"
    then have "n \<le> - 1" by simp
    then have "(of_int n :: rat) \<le> - 1" by (metis of_int_le_iff of_int_minus of_int_1)
    with near E0 show False by linarith
  qed
  moreover have "calculateSuccessRate w = RateText (fixed2 n)"
    using a by (simp add: calculateSuccessRate_def Let_def toFixed2_def n_def y_def
        completed_runs_def total_runs_def)
  ultimately show "\<exists>n. calculateSuccessRate w = RateText (fixed2 n) \<and> 0 \<le> n
               \<and> \<bar>of_int n - 10000 * of_nat completed_runs / of_nat total_runs\<bar> \<le> (1 / 2 :: rat)"
    using near by blast
next
  assume "completed_runs = 3 \<and> total_runs = 4"
  then have c: "length (filter (\<lambda>l. status l = Completed) (importLogs w)) = 3"
    and t: "length (importLogs w) = 4"
    by (simp_all add: completed_runs_def total_runs_def)
  show "calculateSuccessRate w = RateText ''75.00''"
    by (simp add: calculateSuccessRate_def Let_def c t double_round_3_4 double_round_75 toFixed2_75)
qed

text \<open>Three completed runs and one failed run; and the empty collection.\<close>

theorem calculateSuccessRate_percentage_witness:
  "calculateSuccessRate world_3of4 = RateText ''75.00''
   \<and> calculateSuccessRate world0 = RateNumber 0
   \<and> (\<exists>n. calculateSuccessRate world_3of4 = RateText (fixed2 n) \<and> 0 \<le> n
          \<and> \<bar>of_int n - (7500 :: rat)\<bar> \<le> 1 / 2)"
proof -
  have c: "length (filter (\<lambda>l. status l = Completed) (importLogs world_3of4)) = 3"
    and t: "length (importLogs world_3of4) = 4"
    by (simp_all add: world_3of4_def log_with_def)
  have z: "length (importLogs world0) = 0" by (simp add: world0_def)
  note th = calculateSuccessRate_percentage [of world_3of4, unfolded c t]
  from th have 1: "calculateSuccessRate world_3of4 = RateText ''75.00''"
    by blast
  have h: "0 < (4::nat) \<and> (4::nat) < 2 ^ 36" by simp
  from th [THEN conjunct2, THEN conjunct1, rule_format, OF h]
  have "\<exists>n. calculateSuccessRate world_3of4 = RateText (fixed2 n) \<and> 0 \<le> n
          \<and> \<bar>of_int n - 10000 * of_nat 3 / of_nat 4\<bar> \<le> (1 / 2 :: rat)" .
  then have 2: "\<exists>n. calculateSuccessRate world_3of4 = RateText (fixed2 n) \<and> 0 \<le> n
          \<and> \<bar>of_int n - (7500 :: rat)\<bar> \<le> 1 / 2"
    by simp
  from calculateSuccessRate_percentage [of world0] z
  have 3: "calculateSuccessRate world0 = RateNumber 0" by simp
  from 1 2 3 show ?thesis by simp
qed

section \<open>Identity matching of the processor\<close>

lemma schema_errors_persistable:
  "\<not> missing_required c \<Longrightarrow>
   (schema_errors (externalId c) (title c) (company c) (Some (value_or (type c) ''Other''))
      (description c) (url c) = []) = persistable c"
  by (auto simp: schema_errors_def persistable_def missing_required_def)

lemma pick_same [simp]: "pick c l l = c"
  by (simp add: pick_def)

lemma apply_changes_same [simp]: "apply_changes (assign now d c) d d = assign now d c"
  by (simp add: apply_changes_def assign_def)

lemma find_Some_D: "find P xs = Some x \<Longrightarrow> x \<in> set xs \<and> P x"
  by (induction xs) (auto split: if_splits)

lemma find_None_D: "find P xs = None \<Longrightarrow> x \<in> set xs \<Longrightarrow> \<not> P x"
  by (induction xs) (auto split: if_splits)

lemma findOne_or_None:
  "findOne_or e u store = None \<Longrightarrow> e \<notin> set (map d_externalId store) \<and> u \<notin> set (map d_url store)"
  unfolding findOne_or_def using find_None_D [of "\<lambda>d. d_externalId d = e \<or> d_url d = u" store]
  by auto

lemma processJob_create:
  assumes "persistable c"
    and "findOne_or (value_or (externalId c) []) (value_or (url c) []) store = None"
  shows "processJob now c store =
           (\<lparr> success = True, action = Created, error = None,
               job = Some (new_Job now (fresh_id store) c) \<rparr>,
            store @ [new_Job now (fresh_id store) c])"
proof -
  from assms(1) have m: "\<not> missing_required c" by (simp add: persistable_def)
  have e: "schema_errors (externalId c) (title c) (company c) (Some (value_or (type c) ''Other''))
      (description c) (url c) = []"
    using assms(1) schema_errors_persistable [OF m] by simp
  note n = findOne_or_None [OF assms(2)]
  show ?thesis
    using m e n
    by (simp add: processJob_def processJob_find_def processJob_save_def assms(2)
        save_new_def Let_def new_Job_def)
qed

text \<open>The merged document passes the validation when the stored one did and the candidate is acceptable.\<close>

lemma doc_errors_assign:
  assumes "doc_errors d = []" "acceptable c"
  shows "doc_errors (assign now d c) = []"
  using assms
  by (auto simp: doc_errors_def schema_errors_def assign_def acceptable_def missing_required_def
      falsy_def value_or_def split: option.splits if_splits)

lemma map_update_distinct:
  assumes "distinct (map d_id store)" "d \<in> set store"
  shows "map (\<lambda>x. if d_id x = d_id d then f x else x) store
           = map (\<lambda>x. if x = d then f d else x) store"
  using assms by (intro map_cong) (auto simp: distinct_map inj_on_def)

lemma processJob_update:
  assumes acc: "acceptable c"
    and found: "findOne_or (value_or (externalId c) []) (value_or (url c) []) store = Some d"
    and valid: "store_valid store"
    and others: "list_all (\<lambda>x. d_id x = d_id d \<or>
                   (d_externalId x \<noteq> value_or (externalId c) []
                    \<and> d_url x \<noteq> value_or (url c) [])) store"
  shows "processJob now c store =
           (\<lparr> success = True, action = Updated, error = None, job = Some (assign now d c) \<rparr>,
            map (\<lambda>x. if x = d then assign now d c else x) store)"
proof -
  from acc have m: "\<not> missing_required c" by (simp add: acceptable_def)
  from found have din: "d \<in> set store"
    unfolding findOne_or_def by (auto dest: find_Some_D)
  from valid din have dv: "doc_errors d = []" and dist: "distinct (map d_id store)"
    by (auto simp: store_valid_def list_all_iff)
  have e: "doc_errors (assign now d c) = []" by (rule doc_errors_assign [OF dv acc])
  have idin: "d_id d \<in> set (map d_id store)" using din by auto
  have ce: "d_externalId (assign now d c) = value_or (externalId c) []"
    and cu: "d_url (assign now d c) = value_or (url c) []"
    using m by (auto simp: assign_def missing_required_def falsy_def value_or_def split: option.splits)
  have o1: "value_or (externalId c) [] \<notin> set (map d_externalId (filter (\<lambda>x. d_id x \<noteq> d_id d) store))"
    and o2: "value_or (url c) [] \<notin> set (map d_url (filter (\<lambda>x. d_id x \<noteq> d_id d) store))"
    using others by (auto simp: list_all_iff)
  have upd: "map (\<lambda>x. if d_id x = d_id d then apply_changes (assign now d c) d x else x) store
               = map (\<lambda>x. if x = d then assign now d c else x) store"
    using map_update_distinct [OF dist din, of "apply_changes (assign now d c) d"] by simp
  have "save_existing (assign now d c) d store
          = Inr (assign now d c, map (\<lambda>x. if x = d then assign now d c else x) store)"
    unfolding save_existing_def Let_def using e idin o1 o2 by (simp add: ce cu upd)
  then show ?thesis
    using m by (simp add: processJob_def processJob_find_def processJob_save_def found)
qed


lemma findOne_or_None_iff:
  "(findOne_or e u store = None) = list_all (\<lambda>x. d_externalId x \<noteq> e \<and> d_url x \<noteq> u) store"
  unfolding findOne_or_def by (induction store) auto

text \<open>
  A document is found, the merged document passes the validation, and another document
  of a store with unique keys has one of the candidate's keys: the save fails on a unique
  index.
\<close>

lemma processJob_duplicate:
  assumes m: "\<not> missing_required c"
    and found: "findOne_or (value_or (externalId c) []) (value_or (url c) []) store = Some d"
    and e: "doc_errors (assign now d c) = []"
    and ue: "distinct (map d_externalId store)" and uu: "distinct (map d_url store)"
    and others: "\<not> list_all (\<lambda>x. d_id x = d_id d \<or>
                   (d_externalId x \<noteq> value_or (externalId c) []
                    \<and> d_url x \<noteq> value_or (url c) [])) store"
  shows "\<exists>k. processJob now c store = (failed_with (Duplicate_key k), store)"
proof -
  let ?e = "value_or (externalId c) []" and ?u = "value_or (url c) []"
  let ?others = "filter (\<lambda>x. d_id x \<noteq> d_id d) store"
  from found have din: "d \<in> set store"
    unfolding findOne_or_def by (auto dest: find_Some_D)
  have idin: "d_id d \<in> set (map d_id store)" using din by auto
  have ce: "d_externalId (assign now d c) = ?e" and cu: "d_url (assign now d c) = ?u"
    using m by (auto simp: assign_def missing_required_def falsy_def value_or_def split: option.splits)
  from others obtain x where x: "x \<in> set store" "d_id x \<noteq> d_id d"
    "d_externalId x = ?e \<or> d_url x = ?u"
    by (auto simp: list_all_iff)
  from x have xd: "x \<noteq> d" by auto
  from ue x(1) din xd have ne: "d_externalId x \<noteq> d_externalId d"
    by (auto simp: distinct_map inj_on_def)
  from uu x(1) din xd have nu: "d_url x \<noteq> d_url d"
    by (auto simp: distinct_map inj_on_def)
  from x have xo: "x \<in> set ?others" by simp
  have "\<exists>k. save_existing (assign now d c) d store = Inl (Duplicate_key k)"
  proof (cases "d_externalId x = ?e")
    case True
    with ne xo have "?e \<noteq> d_externalId d" "?e \<in> set (map d_externalId ?others)" by force+
    then show ?thesis
      unfolding save_existing_def Let_def using e idin by (simp add: ce cu)
  next
    case False
    with x(3) have "d_url x = ?u" by simp
    with nu xo have "?u \<noteq> d_url d" "?u \<in> set (map d_url ?others)" by force+
    then show ?thesis
      unfolding save_existing_def Let_def using e idin by (simp add: ce cu)
  qed
  then obtain k where "save_existing (assign now d c) d store = Inl (Duplicate_key k)" ..
  then have "processJob now c store = (failed_with (Duplicate_key k), store)"
    using m by (simp add: processJob_def processJob_find_def processJob_save_def found)
  then show ?thesis ..
qed

text \<open>The validation of the schema fails: of a new document, and of a merged one.\<close>

lemma processJob_invalid_new:
  assumes "\<not> missing_required c"
    and "findOne_or (value_or (externalId c) []) (value_or (url c) []) store = None"
    and "\<not> persistable c"
  shows "\<exists>errs. errs \<noteq> []
           \<and> processJob now c store = (failed_with (Validation_failed errs), store)"
proof -
  let ?errs = "schema_errors (externalId c) (title c) (company c)
                 (Some (value_or (type c) ''Other'')) (description c) (url c)"
  from schema_errors_persistable [OF assms(1)] assms(3) have "?errs \<noteq> []" by simp
  then have "?errs \<noteq> [] \<and> processJob now c store = (failed_with (Validation_failed ?errs), store)"
    using assms(1,2)
    by (simp add: processJob_def processJob_find_def processJob_save_def save_new_def Let_def)
  then show ?thesis by blast
qed

lemma processJob_invalid_merge:
  assumes "\<not> missing_required c"
    and "findOne_or (value_or (externalId c) []) (value_or (url c) []) store = Some d"
    and "doc_errors (assign now d c) \<noteq> []"
  shows "processJob now c store
           = (failed_with (Validation_failed (doc_errors (assign now d c))), store)"
  using assms
  by (simp add: processJob_def processJob_find_def processJob_save_def save_existing_def Let_def)

text \<open>
  Claim C3, as the code has it. The query of \<open>processJob\<close> is a disjunction: it finds no
  document exactly when no stored document has the candidate's \<open>externalId\<close> or its \<open>url\<close>.
  For a candidate with the four required properties the outcome is then decided by the
  schema. A document is found: when the candidate sets no property to a value the schema
  refuses, the stored documents are valid and no other document has one of the
  candidate's two keys, the outcome is \<open>updated\<close> on that document, which keeps its \<open>_id\<close>
  and \<open>createdAt\<close>, takes every property the candidate has, keeps its own where the
  candidate has none, and has \<open>updatedAt\<close> refreshed; when another document of a store
  with unique keys has one of the candidate's keys, the outcome is \<open>failed\<close>, with a
  duplicate key when the merged document passes the validation; when the merged document
  fails the validation, the outcome is \<open>failed\<close> with the failing paths. No document is found: a new document is inserted and the
  outcome is \<open>created\<close> when the candidate passes the validation of a new document, and
  the outcome is \<open>failed\<close> with the failing paths when it does not. Every failure leaves
  the store as it is.
\<close>

theorem processJob_identity_matching:
  "(findOne_or (value_or (externalId c) []) (value_or (url c) []) store = None)
     = list_all (\<lambda>x. d_externalId x \<noteq> value_or (externalId c) []
                      \<and> d_url x \<noteq> value_or (url c) []) store
   \<and> (acceptable c \<and> store_valid store
       \<and> findOne_or (value_or (externalId c) []) (value_or (url c) []) store = Some d
       \<and> list_all (\<lambda>x. d_id x = d_id d \<or>
                   (d_externalId x \<noteq> value_or (externalId c) []
                    \<and> d_url x \<noteq> value_or (url c) [])) store
       \<longrightarrow> processJob now c store =
              (\<lparr> success = True, action = Updated, error = None, job = Some (assign now d c) \<rparr>,
               map (\<lambda>x. if x = d then assign now d c else x) store)
          \<and> d_id (assign now d c) = d_id d
          \<and> d_updatedAt (assign now d c) = now
          \<and> d_createdAt (assign now d c) = d_createdAt d
          \<and> Some (d_externalId (assign now d c)) = externalId c
          \<and> Some (d_url (assign now d c)) = url c
          \<and> Some (d_title (assign now d c)) = title c
          \<and> Some (d_company (assign now d c)) = company c
          \<and> d_category (assign now d c) = value_or (category c) (d_category d)
          \<and> d_type (assign now d c) = value_or (type c) (d_type d)
          \<and> d_location (assign now d c) = value_or (location c) (d_location d)
          \<and> d_description (assign now d c) = value_or (description c) (d_description d)
          \<and> d_postedAt (assign now d c) = value_or (postedAt c) (d_postedAt d))
   \<and> (\<not> missing_required c
       \<and> distinct (map d_externalId store) \<and> distinct (map d_url store)
       \<and> findOne_or (value_or (externalId c) []) (value_or (url c) []) store = Some d
       \<and> \<not> list_all (\<lambda>x. d_id x = d_id d \<or>
                   (d_externalId x \<noteq> value_or (externalId c) []
                    \<and> d_url x \<noteq> value_or (url c) [])) store
       \<longrightarrow> (\<exists>e. processJob now c store = (failed_with e, store)
                 \<and> (doc_errors (assign now d c) = [] \<longrightarrow> (\<exists>k. e = Duplicate_key k))))
   \<and> (\<not> missing_required c
       \<and> findOne_or (value_or (externalId c) []) (value_or (url c) []) store = Some d
       \<and> doc_errors (assign now d c) \<noteq> []
       \<longrightarrow> processJob now c store
             = (failed_with (Validation_failed (doc_errors (assign now d c))), store))
   \<and> (persistable c
       \<and> findOne_or (value_or (externalId c) []) (value_or (url c) []) store = None
       \<longrightarrow> processJob now c store =
              (\<lparr> success = True, action = Created, error = None,
                  job = Some (new_Job now (fresh_id store) c) \<rparr>,
               store @ [new_Job now (fresh_id store) c]))
   \<and> (\<not> missing_required c \<and> \<not> persistable c
       \<and> findOne_or (value_or (externalId c) []) (value_or (url c) []) store = None
       \<longrightarrow> (\<exists>errs. errs \<noteq> []
             \<and> processJob now c store = (failed_with (Validation_failed errs), store)))"
proof (intro conjI impI)
  show "(findOne_or (value_or (externalId c) []) (value_or (url c) []) store = None)
           = list_all (\<lambda>x. d_externalId x \<noteq> value_or (externalId c) []
                            \<and> d_url x \<noteq> value_or (url c) []) store"
    by (rule findOne_or_None_iff)
next
  assume a: "acceptable c \<and> store_valid store
       \<and> findOne_or (value_or (externalId c) []) (value_or (url c) []) store = Some d
       \<and> list_all (\<lambda>x. d_id x = d_id d \<or>
                   (d_externalId x \<noteq> value_or (externalId c) []
                    \<and> d_url x \<noteq> value_or (url c) [])) store"
  then show "processJob now c store =
              (\<lparr> success = True, action = Updated, error = None, job = Some (assign now d c) \<rparr>,
               map (\<lambda>x. if x = d then assign now d c else x) store)"
    using processJob_update by blast
  from a have m: "\<not> missing_required c" by (simp add: acceptable_def)
  show "d_id (assign now d c) = d_id d" "d_updatedAt (assign now d c) = now"
    "d_createdAt (assign now d c) = d_createdAt d"
    "d_category (assign now d c) = value_or (category c) (d_category d)"
    "d_type (assign now d c) = value_or (type c) (d_type d)"
    "d_location (assign now d c) = value_or (location c) (d_location d)"
    "d_description (assign now d c) = value_or (description c) (d_description d)"
    "d_postedAt (assign now d c) = value_or (postedAt c) (d_postedAt d)"
    by (simp_all add: assign_def)
  show "Some (d_externalId (assign now d c)) = externalId c"
    "Some (d_url (assign now d c)) = url c"
    "Some (d_title (assign now d c)) = title c"
    "Some (d_company (assign now d c)) = company c"
    using m by (auto simp: assign_def missing_required_def falsy_def value_or_def split: option.splits)
next
  assume a: "\<not> missing_required c
       \<and> distinct (map d_externalId store) \<and> distinct (map d_url store)
       \<and> findOne_or (value_or (externalId c) []) (value_or (url c) []) store = Some d
       \<and> \<not> list_all (\<lambda>x. d_id x = d_id d \<or>
                   (d_externalId x \<noteq> value_or (externalId c) []
                    \<and> d_url x \<noteq> value_or (url c) [])) store"
  show "\<exists>e. processJob now c store = (failed_with e, store)
                 \<and> (doc_errors (assign now d c) = [] \<longrightarrow> (\<exists>k. e = Duplicate_key k))"
  proof (cases "doc_errors (assign now d c) = []")
    case True
    with a processJob_duplicate [of c store d now] show ?thesis by blast
  next
    case False
    with a processJob_invalid_merge [of c store d now] show ?thesis by blast
  qed
next
  assume "\<not> missing_required c
       \<and> findOne_or (value_or (externalId c) []) (value_or (url c) []) store = Some d
       \<and> doc_errors (assign now d c) \<noteq> []"
  then show "processJob now c store
             = (failed_with (Validation_failed (doc_errors (assign now d c))), store)"
    using processJob_invalid_merge by blast
next
  assume "persistable c
       \<and> findOne_or (value_or (externalId c) []) (value_or (url c) []) store = None"
  then show "processJob now c store =
              (\<lparr> success = True, action = Created, error = None,
                  job = Some (new_Job now (fresh_id store) c) \<rparr>,
               store @ [new_Job now (fresh_id store) c])"
    using processJob_create by blast
next
  assume "\<not> missing_required c \<and> \<not> persistable c
       \<and> findOne_or (value_or (externalId c) []) (value_or (url c) []) store = None"
  then show "\<exists>errs. errs \<noteq> []
             \<and> processJob now c store = (failed_with (Validation_failed errs), store)"
    using processJob_invalid_new by blast
qed

text \<open>
  The same at concrete inputs: a candidate with the \<open>externalId\<close> of the stored document
  and another \<open>url\<close>; the same candidate against a document with its \<open>url\<close> and another
  \<open>externalId\<close>; a candidate no stored document matches; the first candidate against both
  documents; a candidate with an empty description that matches a document; and one with
  an empty description that matches nothing.
\<close>

theorem processJob_identity_matching_witness:
  "processJob 9 cand_a2 [doc_1] =
     (\<lparr> success = True, action = Updated, error = None,
         job = Some (doc_1\<lparr> d_url := ''http://x/2'', d_updatedAt := 9 \<rparr>) \<rparr>,
      [doc_1\<lparr> d_url := ''http://x/2'', d_updatedAt := 9 \<rparr>])
   \<and> processJob 9 cand_a2 [doc_2] =
     (\<lparr> success = True, action = Updated, error = None,
         job = Some (doc_2\<lparr> d_externalId := ''a'', d_updatedAt := 9 \<rparr>) \<rparr>,
      [doc_2\<lparr> d_externalId := ''a'', d_updatedAt := 9 \<rparr>])
   \<and> processJob 9 cand_a [doc_2] =
     (\<lparr> success = True, action = Created, error = None,
         job = Some (new_Job 9 3 cand_a) \<rparr>,
      [doc_2, new_Job 9 3 cand_a])
   \<and> (\<exists>k. processJob 9 cand_a2 [doc_1, doc_2] = (failed_with (Duplicate_key k), [doc_1, doc_2]))
   \<and> processJob 9 (cand_a\<lparr> description := Some [] \<rparr>) [doc_1]
       = (failed_with (Validation_failed [''description'']), [doc_1])
   \<and> (\<exists>errs. errs \<noteq> [] \<and> processJob 9 cand_b [] = (failed_with (Validation_failed errs), []))"
proof -
  have acc: "acceptable cand_a2" "acceptable cand_a" "persistable cand_a"
    by (simp_all add: acceptable_def persistable_def cand_a2_def cand_a_def missing_required_def
        falsy_def value_or_def type_enum_def)
  have v: "store_valid [doc_1]" "store_valid [doc_2]" "store_valid [doc_1, doc_2]"
    by (simp_all add: store_valid_def doc_errors_def schema_errors_def doc_1_def doc_2_def
        falsy_def type_enum_def)
  have k: "value_or (externalId cand_a2) [] = ''a''" "value_or (url cand_a2) [] = ''http://x/2''"
    "value_or (externalId cand_a) [] = ''a''" "value_or (url cand_a) [] = ''http://x/a''"
    by (simp_all add: cand_a2_def cand_a_def value_or_def)
  have f1: "findOne_or ''a'' ''http://x/2'' [doc_1] = Some doc_1"
    and f2: "findOne_or ''a'' ''http://x/2'' [doc_2] = Some doc_2"
    and f3: "findOne_or ''a'' ''http://x/a'' [doc_2] = None"
    and f4: "findOne_or ''a'' ''http://x/2'' [doc_1, doc_2] = Some doc_1"
    and f5: "findOne_or ''a'' ''http://x/a'' [doc_1] = Some doc_1"
    and f6: "findOne_or ''b'' ''http://x/b'' [] = None"
    by (simp_all add: findOne_or_def doc_1_def doc_2_def)
  have a1: "assign 9 doc_1 cand_a2 = doc_1\<lparr> d_url := ''http://x/2'', d_updatedAt := 9 \<rparr>"
    and a2: "assign 9 doc_2 cand_a2 = doc_2\<lparr> d_externalId := ''a'', d_updatedAt := 9 \<rparr>"
    by (simp_all add: assign_def cand_a2_def cand_a_def doc_1_def doc_2_def value_or_def)
  have fr: "fresh_id [doc_2] = 3" by (simp add: fresh_id_def doc_2_def)
  note th = processJob_identity_matching [where now = 9]
  from th [where c = cand_a2 and store = "[doc_1]" and d = doc_1] acc(1) v(1) f1
  have 1: "processJob 9 cand_a2 [doc_1] =
     (\<lparr> success = True, action = Updated, error = None,
         job = Some (doc_1\<lparr> d_url := ''http://x/2'', d_updatedAt := 9 \<rparr>) \<rparr>,
      [doc_1\<lparr> d_url := ''http://x/2'', d_updatedAt := 9 \<rparr>])"
    by (simp add: k a1)
  from th [where c = cand_a2 and store = "[doc_2]" and d = doc_2] acc(1) v(2) f2
  have 2: "processJob 9 cand_a2 [doc_2] =
     (\<lparr> success = True, action = Updated, error = None,
         job = Some (doc_2\<lparr> d_externalId := ''a'', d_updatedAt := 9 \<rparr>) \<rparr>,
      [doc_2\<lparr> d_externalId := ''a'', d_updatedAt := 9 \<rparr>])"
    by (simp add: k a2)
  from th [where c = cand_a and store = "[doc_2]"] f3 acc(3)
  have 3: "processJob 9 cand_a [doc_2] =
     (\<lparr> success = True, action = Created, error = None,
         job = Some (new_Job 9 3 cand_a) \<rparr>,
      [doc_2, new_Job 9 3 cand_a])"
    by (simp add: k fr)
  have u: "distinct (map d_externalId [doc_1, doc_2])" "distinct (map d_url [doc_1, doc_2])"
    "\<not> list_all (\<lambda>x. d_id x = d_id doc_1 \<or>
                   (d_externalId x \<noteq> ''a'' \<and> d_url x \<noteq> ''http://x/2'')) [doc_1, doc_2]"
    by (simp_all add: doc_1_def doc_2_def)
  have m4: "\<not> missing_required cand_a2" using acc(1) by (simp add: acceptable_def)
  have e4: "doc_errors (assign 9 doc_1 cand_a2) = []"
    by code_simp
  from th [where c = cand_a2 and store = "[doc_1, doc_2]" and d = doc_1,
      THEN conjunct2, THEN conjunct2, THEN conjunct1, rule_format, unfolded k]
    m4 u f4 e4
  have 4: "\<exists>k. processJob 9 cand_a2 [doc_1, doc_2]
             = (failed_with (Duplicate_key k), [doc_1, doc_2])"
    by blast
  have m5: "\<not> missing_required (cand_a\<lparr> description := Some [] \<rparr>)"
    and k5: "value_or (externalId (cand_a\<lparr> description := Some [] \<rparr>)) [] = ''a''"
      "value_or (url (cand_a\<lparr> description := Some [] \<rparr>)) [] = ''http://x/a''"
    and e5: "doc_errors (assign 9 doc_1 (cand_a\<lparr> description := Some [] \<rparr>)) = [''description'']"
    by (simp_all add: missing_required_def falsy_def cand_a_def value_or_def doc_errors_def
        schema_errors_def assign_def doc_1_def type_enum_def)
  from th [where c = "cand_a\<lparr> description := Some [] \<rparr>" and store = "[doc_1]" and d = doc_1,
      THEN conjunct2, THEN conjunct2, THEN conjunct2, THEN conjunct1, rule_format,
      unfolded k5 e5] m5 f5
  have 5: "processJob 9 (cand_a\<lparr> description := Some [] \<rparr>) [doc_1]
       = (failed_with (Validation_failed [''description'']), [doc_1])"
    by simp
  have m6: "\<not> missing_required cand_b" "\<not> persistable cand_b"
    and k6: "value_or (externalId cand_b) [] = ''b''" "value_or (url cand_b) [] = ''http://x/b''"
    by (simp_all add: missing_required_def persistable_def falsy_def cand_b_def value_or_def)
  from th [where c = cand_b and store = "[]",
      THEN conjunct2, THEN conjunct2, THEN conjunct2, THEN conjunct2, THEN conjunct2,
      rule_format, unfolded k6] m6 f6
  have 6: "\<exists>errs. errs \<noteq> [] \<and> processJob 9 cand_b [] = (failed_with (Validation_failed errs), [])"
    by blast
  from 1 2 3 4 5 6 show ?thesis by (intro conjI)
qed

text \<open>
  A match does not always end in \<open>updated\<close>, nor a miss in \<open>created\<close>: a candidate with the
  \<open>externalId\<close> of one stored document and the \<open>url\<close> of another matches the first, and its
  save fails on the unique index of \<open>url\<close>; a candidate with an empty description that
  matches nothing fails the validation of the new document.
\<close>

theorem processJob_identity_matching_counterexample:
  "findOne_or ''a'' ''http://x/2'' [doc_1, doc_2] = Some doc_1
   \<and> processJob 9 cand_a2 [doc_1, doc_2] = (failed_with (Duplicate_key ''url''), [doc_1, doc_2])
   \<and> findOne_or ''b'' ''http://x/b'' [] = None
   \<and> \<not> missing_required cand_b
   \<and> processJob 9 cand_b [] = (failed_with (Validation_failed [''description'']), [])"
  by (simp add: findOne_or_def processJob_def processJob_find_def processJob_save_def
      save_existing_def save_new_def Let_def doc_errors_def schema_errors_def assign_def
      missing_required_def falsy_def value_or_def type_enum_def new_Job_def fresh_id_def
      cand_a2_def cand_a_def cand_b_def doc_1_def doc_2_def)

section \<open>Processing a candidate twice\<close>

text \<open>
  Claim C2, as the code has it. For every candidate that passes the check of \<open>processJob\<close>
  and the validation of a new document (the four required properties and the
  description present and not empty, the type one of the enum), processed against the
  empty store, and every second candidate with the same \<open>externalId\<close> and \<open>url\<close> that
  sets no property to a value the schema refuses: the first outcome is \<open>created\<close>, the
  second is \<open>updated\<close>, the store holds one document after each call, and that document
  has every property the second candidate has.
\<close>

theorem processJob_twice:
  assumes "persistable c1" and "acceptable c2"
    and "externalId c2 = externalId c1" and "url c2 = url c1"
  shows "processJob t1 c1 [] =
           (\<lparr> success = True, action = Created, error = None, job = Some (new_Job t1 1 c1) \<rparr>,
            [new_Job t1 1 c1])
     \<and> processJob t2 c2 [new_Job t1 1 c1] =
           (\<lparr> success = True, action = Updated, error = None,
               job = Some (assign t2 (new_Job t1 1 c1) c2) \<rparr>,
            [assign t2 (new_Job t1 1 c1) c2])
     \<and> Some (d_externalId (assign t2 (new_Job t1 1 c1) c2)) = externalId c2
     \<and> Some (d_url (assign t2 (new_Job t1 1 c1) c2)) = url c2
     \<and> Some (d_title (assign t2 (new_Job t1 1 c1) c2)) = title c2
     \<and> Some (d_company (assign t2 (new_Job t1 1 c1) c2)) = company c2
     \<and> (\<forall>v. category c2 = Some v \<longrightarrow> d_category (assign t2 (new_Job t1 1 c1) c2) = v)
     \<and> (\<forall>v. type c2 = Some v \<longrightarrow> d_type (assign t2 (new_Job t1 1 c1) c2) = v)
     \<and> (\<forall>v. location c2 = Some v \<longrightarrow> d_location (assign t2 (new_Job t1 1 c1) c2) = v)
     \<and> (\<forall>v. description c2 = Some v \<longrightarrow> d_description (assign t2 (new_Job t1 1 c1) c2) = v)
     \<and> (\<forall>v. postedAt c2 = Some v \<longrightarrow> d_postedAt (assign t2 (new_Job t1 1 c1) c2) = v)
     \<and> d_updatedAt (assign t2 (new_Job t1 1 c1) c2) = t2"
proof -
  define d1 where "d1 = new_Job t1 1 c1"
  have fr: "fresh_id [] = 1" by (simp add: fresh_id_def)
  have f0: "findOne_or (value_or (externalId c1) []) (value_or (url c1) []) [] = None"
    by (simp add: findOne_or_def)
  have 1: "processJob t1 c1 [] =
           (\<lparr> success = True, action = Created, error = None, job = Some d1 \<rparr>, [d1])"
    using processJob_create [OF assms(1) f0, of t1] by (simp add: fr d1_def)
  from assms(1) have m1: "\<not> missing_required c1" by (simp add: persistable_def)
  from assms(2) have m2: "\<not> missing_required c2" by (simp add: acceptable_def)
  have dv: "doc_errors d1 = []"
    using assms(1)
    by (auto simp: d1_def doc_errors_def schema_errors_def new_Job_def persistable_def
        missing_required_def falsy_def value_or_def split: option.splits)
  then have sv: "store_valid [d1]" by (simp add: store_valid_def)
  have f1: "findOne_or (value_or (externalId c2) []) (value_or (url c2) []) [d1] = Some d1"
    by (simp add: findOne_or_def d1_def new_Job_def assms(3))
  have 2: "processJob t2 c2 [d1] =
           (\<lparr> success = True, action = Updated, error = None, job = Some (assign t2 d1 c2) \<rparr>,
            [assign t2 d1 c2])"
    using processJob_update [OF assms(2) f1 sv, of t2] by simp
  have 3: "Some (d_externalId (assign t2 d1 c2)) = externalId c2"
    "Some (d_url (assign t2 d1 c2)) = url c2"
    "Some (d_title (assign t2 d1 c2)) = title c2"
    "Some (d_company (assign t2 d1 c2)) = company c2"
    using m2 by (auto simp: assign_def missing_required_def falsy_def value_or_def split: option.splits)
  have 4: "\<forall>v. category c2 = Some v \<longrightarrow> d_category (assign t2 d1 c2) = v"
    "\<forall>v. type c2 = Some v \<longrightarrow> d_type (assign t2 d1 c2) = v"
    "\<forall>v. location c2 = Some v \<longrightarrow> d_location (assign t2 d1 c2) = v"
    "\<forall>v. description c2 = Some v \<longrightarrow> d_description (assign t2 d1 c2) = v"
    "\<forall>v. postedAt c2 = Some v \<longrightarrow> d_postedAt (assign t2 d1 c2) = v"
    "d_updatedAt (assign t2 d1 c2) = t2"
    by (simp_all add: assign_def value_or_def)
  from 1 2 3 4 show ?thesis unfolding d1_def by simp
qed

text \<open>The same at a concrete input: the candidate, then the same with another title.\<close>

theorem processJob_twice_witness:
  "processJob 1 cand_a [] =
     (\<lparr> success = True, action = Created, error = None, job = Some (new_Job 1 1 cand_a) \<rparr>,
      [new_Job 1 1 cand_a])
   \<and> processJob 2 (cand_a\<lparr> title := Some ''Lead'' \<rparr>) [new_Job 1 1 cand_a] =
     (\<lparr> success = True, action = Updated, error = None,
         job = Some ((new_Job 1 1 cand_a)\<lparr> d_title := ''Lead'', d_updatedAt := 2 \<rparr>) \<rparr>,
      [(new_Job 1 1 cand_a)\<lparr> d_title := ''Lead'', d_updatedAt := 2 \<rparr>])"
proof -
  have p: "persistable cand_a" "acceptable (cand_a\<lparr> title := Some ''Lead'' \<rparr>)"
    by (simp_all add: acceptable_def persistable_def cand_a_def missing_required_def
        falsy_def value_or_def type_enum_def)
  have a: "assign 2 (new_Job 1 1 cand_a) (cand_a\<lparr> title := Some ''Lead'' \<rparr>)
             = (new_Job 1 1 cand_a)\<lparr> d_title := ''Lead'', d_updatedAt := 2 \<rparr>"
    by (simp add: assign_def new_Job_def cand_a_def value_or_def)
  have same: "externalId (cand_a\<lparr> title := Some ''Lead'' \<rparr>) = externalId cand_a"
    "url (cand_a\<lparr> title := Some ''Lead'' \<rparr>) = url cand_a"
    by simp_all
  note th = processJob_twice [OF p same, of 1 2]
  from th have 1: "processJob 1 cand_a [] =
     (\<lparr> success = True, action = Created, error = None, job = Some (new_Job 1 1 cand_a) \<rparr>,
      [new_Job 1 1 cand_a])"
    by (rule conjunct1)
  from th have 2: "processJob 2 (cand_a\<lparr> title := Some ''Lead'' \<rparr>) [new_Job 1 1 cand_a] =
           (\<lparr> success = True, action = Updated, error = None,
               job = Some (assign 2 (new_Job 1 1 cand_a) (cand_a\<lparr> title := Some ''Lead'' \<rparr>)) \<rparr>,
            [assign 2 (new_Job 1 1 cand_a) (cand_a\<lparr> title := Some ''Lead'' \<rparr>)])"
    by (rule conjunct2 [THEN conjunct1])
  from 1 2 [unfolded a] show ?thesis by (rule conjI)
qed

text \<open>
  A candidate with all four identity fields and no description: both calls fail the
  validation of the schema and the store stays empty.
\<close>

theorem processJob_twice_counterexample:
  "\<not> falsy (externalId cand_nodesc) \<and> \<not> falsy (title cand_nodesc)
   \<and> \<not> falsy (company cand_nodesc) \<and> \<not> falsy (url cand_nodesc)
   \<and> processJob 1 cand_nodesc [] = (failed_with (Validation_failed [''description'']), [])
   \<and> processJob 2 cand_nodesc (snd (processJob 1 cand_nodesc []))
        = (failed_with (Validation_failed [''description'']), [])"
  by (simp add: processJob_def processJob_find_def processJob_save_def findOne_or_def
      save_new_def Let_def schema_errors_def missing_required_def falsy_def value_or_def
      type_enum_def cand_nodesc_def cand_a_def)

section \<open>The accounting of a batch\<close>

lemma failed_with_structured [simp]: "structured (failed_with e)"
  by (simp add: structured_def failed_with_def)

lemma processJob_save_structured: "structured (fst (processJob_save now c f store))"
  by (auto simp: processJob_save_def structured_def failed_with_def split: option.splits sum.splits)

lemma processJob_find_structured: "processJob_find c store = Inl r \<Longrightarrow> structured r"
  by (auto simp: processJob_find_def split: if_splits)


lemma list_all_update: "list_all P xs \<Longrightarrow> P x \<Longrightarrow> list_all P (xs[i := x])"
  using set_update_subset_insert [of xs i x] by (auto simp: list_all_iff)

lemma serve_length [simp]: "length (snd (serve now jobs i sc)) = length (snd sc)"
  by (auto simp: serve_def Let_def split: prod.splits option.splits)

lemma serve_call_ok:
  assumes "case c of Done r \<Rightarrow> structured r | _ \<Rightarrow> True"
  shows "case snd (serve_call now jobData c store) of Done r \<Rightarrow> structured r | _ \<Rightarrow> True"
proof (cases c)
  case Pending
  then show ?thesis
    by (auto simp: serve_call_def dest: processJob_find_structured split: sum.splits)
next
  case (Found f)
  then show ?thesis using processJob_save_structured [of now jobData f store]
    by (auto simp: serve_call_def split: prod.splits)
next
  case (Done r)
  then show ?thesis using assms by (simp add: serve_call_def)
next
  case (Thrown e)
  then show ?thesis by (simp add: serve_call_def)
qed

lemma serve_call_progress:
  "min 2 (Suc (progress c)) \<le> progress (snd (serve_call now jobData c store))"
  by (cases c) (auto simp: serve_call_def split: sum.splits prod.splits)

lemma serve_ok: "calls_ok (snd sc) \<Longrightarrow> calls_ok (snd (serve now jobs i sc))"
proof -
  assume ok: "calls_ok (snd sc)"
  obtain store calls where sc: "sc = (store, calls)" by (cases sc)
  show ?thesis
  proof (cases "i < length calls \<and> i < length jobs")
    case False
    then show ?thesis using ok by (auto simp: serve_def sc)
  next
    case True
    show ?thesis
    proof (cases "jobs ! i")
      case None
      then show ?thesis using ok True by (simp add: serve_def sc)
    next
      case (Some jobData)
      from ok True have "case calls ! i of Done r \<Rightarrow> structured r | _ \<Rightarrow> True"
        by (simp add: sc calls_ok_def list_all_length)
      from serve_call_ok [OF this, of now jobData store] ok True Some show ?thesis
        by (auto simp: serve_def sc calls_ok_def intro!: list_all_update split: prod.splits)
    qed
  qed
qed

lemma serve_progress:
  assumes "j < length calls" "length calls = length jobs"
  shows "(if i = j \<and> jobs ! j \<noteq> None then min 2 (Suc (progress (calls ! j)))
          else progress (calls ! j))
           \<le> progress (snd (serve now jobs i (store, calls)) ! j)"
proof (cases "i < length calls")
  case False
  then show ?thesis using assms by (auto simp: serve_def)
next
  case True
  show ?thesis
  proof (cases "jobs ! i")
    case None
    then show ?thesis using assms True by (auto simp: serve_def)
  next
    case (Some jobData)
    show ?thesis
    proof (cases "i = j")
      case True
      with serve_call_progress [of "calls ! i" now jobData store] Some assms show ?thesis
        by (auto simp: serve_def split: prod.splits)
    next
      case False
      with Some True assms show ?thesis
        by (auto simp: serve_def split: prod.splits)
    qed
  qed
qed

lemma serve_all_progress:
  assumes "length calls = length jobs" "j < length jobs"
  shows "min 2 (progress (calls ! j) + (if jobs ! j = None then 0 else count_list schedule j))
           \<le> progress (snd (foldl (\<lambda>sc i. serve now jobs i sc) (store, calls) schedule) ! j)"
  using assms
proof (induction schedule arbitrary: store calls)
  case Nil
  then show ?case by (cases "calls ! j") auto
next
  case (Cons i schedule)
  obtain store' calls' where s: "serve now jobs i (store, calls) = (store', calls')"
    by (cases "serve now jobs i (store, calls)")
  have l: "length calls' = length jobs"
    using serve_length [of now jobs i "(store, calls)"] Cons.prems by (simp add: s)
  have p: "(if i = j \<and> jobs ! j \<noteq> None then min 2 (Suc (progress (calls ! j)))
            else progress (calls ! j))
             \<le> progress (calls' ! j)"
    using serve_progress [of j calls jobs i now store] Cons.prems by (simp add: s)
  from Cons.IH [OF l Cons.prems(2), of store'] p show ?case
    by (auto simp: s split: if_splits)
qed

lemma serve_all_length:
  "length (snd (foldl (\<lambda>sc i. serve now jobs i sc) (store, calls) schedule)) = length calls"
proof (induction schedule arbitrary: store calls)
  case Nil
  then show ?case by simp
next
  case (Cons i schedule)
  obtain store' calls' where s: "serve now jobs i (store, calls) = (store', calls')"
    by (cases "serve now jobs i (store, calls)")
  have "length calls' = length calls"
    using serve_length [of now jobs i "(store, calls)"] by (simp add: s)
  with Cons.IH [of store' calls'] show ?case by (simp add: s)
qed

lemma serve_all_ok:
  "calls_ok calls \<Longrightarrow> calls_ok (snd (foldl (\<lambda>sc i. serve now jobs i sc) (store, calls) schedule))"
proof (induction schedule arbitrary: store calls)
  case Nil
  then show ?case by simp
next
  case (Cons i schedule)
  obtain store' calls' where s: "serve now jobs i (store, calls) = (store', calls')"
    by (cases "serve now jobs i (store, calls)")
  from serve_ok [of "(store, calls)" now jobs i] Cons.prems have "calls_ok calls'" by (simp add: s)
  from Cons.IH [OF this, of store'] show ?case by (simp add: s)
qed

lemma start_calls_ok: "calls_ok (start_calls jobs)"
  by (induction jobs) (auto simp: calls_ok_def start_calls_def split: option.splits)

lemma start_calls_None:
  "j < length jobs \<Longrightarrow> jobs ! j = None \<Longrightarrow> progress (start_calls jobs ! j) = 2"
  by (simp add: start_calls_def)

lemma settle_all:
  assumes "list_all (\<lambda>c. progress c = 2) calls" "calls_ok calls"
  shows "\<exists>rs. those (map settle calls) = Some rs \<and> length rs = length calls
            \<and> list_all (\<lambda>s. case s of Fulfilled r \<Rightarrow> structured r | Rejected e \<Rightarrow> True) rs"
  using assms
proof (induction calls)
  case Nil
  then show ?case by simp
next
  case (Cons c calls)
  then obtain rs where rs: "those (map settle calls) = Some rs"
    "length rs = length calls"
    "list_all (\<lambda>s. case s of Fulfilled r \<Rightarrow> structured r | Rejected e \<Rightarrow> True) rs"
    by (auto simp: calls_ok_def)
  from Cons.prems obtain s where c: "settle c = Some s"
    "case s of Fulfilled r \<Rightarrow> structured r | Rejected e \<Rightarrow> True"
    by (cases c) (auto simp: calls_ok_def settle_def)
  have "those (map settle (c # calls)) = Some (s # rs)"
    by (simp add: c rs)
  with rs c show ?case by (intro exI [of _ "s # rs"]) simp
qed

lemma count_result_structured:
  assumes "case s of Fulfilled r \<Rightarrow> structured r | Rejected e \<Rightarrow> True"
  shows "st_total (count_result st s) = st_total st"
    and "st_created (count_result st s) + st_updated (count_result st s)
          + st_failed (count_result st s)
         = Suc (st_created st + st_updated st + st_failed st)"
    and "length (st_errors (count_result st s)) + st_failed st
         = length (st_errors st) + st_failed (count_result st s)"
  using assms by (auto simp: count_result_def structured_def split: settled.splits)

lemma count_results_structured:
  assumes "list_all (\<lambda>s. case s of Fulfilled r \<Rightarrow> structured r | Rejected e \<Rightarrow> True) rs"
  shows "st_total (foldl count_result st rs) = st_total st
     \<and> st_created (foldl count_result st rs)
         + st_updated (foldl count_result st rs)
         + st_failed (foldl count_result st rs)
        = st_created st + st_updated st + st_failed st + length rs
     \<and> length (st_errors (foldl count_result st rs)) + st_failed st
        = length (st_errors st) + st_failed (foldl count_result st rs)"
  using assms
proof (induction rs arbitrary: st)
  case Nil
  then show ?case by simp
next
  case (Cons r rs)
  then have r: "case r of Fulfilled r \<Rightarrow> structured r | Rejected e \<Rightarrow> True"
    and rs: "list_all (\<lambda>s. case s of Fulfilled r \<Rightarrow> structured r | Rejected e \<Rightarrow> True) rs"
    by simp_all
  from Cons.IH [OF rs, of "count_result st r"] count_result_structured [OF r, of st]
  show ?case by simp
qed




section \<open>A failure in a batch\<close>

text \<open>Once every call has been served twice, every call has settled.\<close>

lemma serve_all_done:
  assumes c: "serves_all schedule (length jobs)"
    and f: "serve_all now jobs schedule store = (store', calls)"
  shows "length calls = length jobs" "list_all (\<lambda>c. progress c = 2) calls" "calls_ok calls"
proof -
  have l0: "length (start_calls jobs) = length jobs" by (simp add: start_calls_def)
  show len: "length calls = length jobs"
    using serve_all_length [where now = now and jobs = jobs and store = store
        and calls = "start_calls jobs" and schedule = schedule] f l0
    by (simp add: serve_all_def)
  have pr: "min 2 (progress (start_calls jobs ! j)
                    + (if jobs ! j = None then 0 else count_list schedule j))
              \<le> progress (calls ! j)"
    if "j < length jobs" for j
    using serve_all_progress [OF l0 that, where schedule = schedule and store = store
        and now = now] f
    by (simp add: serve_all_def)
  have "progress (calls ! j) = 2" if "j < length calls" for j
  proof -
    from that len have j: "j < length jobs" by simp
    from c j have "2 \<le> count_list schedule j" by (simp add: serves_all_def list_all_iff)
    moreover have "progress (calls ! j) \<le> 2" by (cases "calls ! j") auto
    ultimately show ?thesis using pr [OF j] start_calls_None [OF j]
      by (cases "jobs ! j") simp_all
  qed
  then show "list_all (\<lambda>c. progress c = 2) calls" by (simp add: list_all_length)
  show "calls_ok calls"
    using serve_all_ok [OF start_calls_ok [of jobs], where now = now and jobs = jobs
        and store = store and schedule = schedule] f
    by (simp add: serve_all_def)
qed

text \<open>A call that is done stays as it is, whatever the store serves.\<close>

lemma serve_insert:
  assumes k: "length J1 = k" "length a = k"
  shows "serve now (J1 @ Some c # J2) i (store, a @ Done r # b) =
     (if i = k then (store, a @ Done r # b)
      else (fst (serve now (J1 @ J2) (if k < i then i - 1 else i) (store, a @ b)),
            take k (snd (serve now (J1 @ J2) (if k < i then i - 1 else i) (store, a @ b)))
              @ Done r
              # drop k (snd (serve now (J1 @ J2) (if k < i then i - 1 else i) (store, a @ b)))))"
proof -
  consider "i = k" | "i < k" | "k < i" by linarith
  then show ?thesis
  proof cases
    case 1
    with k show ?thesis by (simp add: serve_def serve_call_def nth_append list_update_append)
  next
    case 2
    with k show ?thesis
      by (auto simp: serve_def nth_append list_update_append split: option.splits prod.splits)
  next
    case 3
    then obtain m where m: "i = Suc (k + m)" using less_iff_Suc_add by auto
    with k show ?thesis
      by (auto simp: serve_def nth_append list_update_append split: option.splits prod.splits)
  qed
qed

lemma serve_all_insert:
  assumes k: "length J1 = k" "length a = k"
  shows "\<exists>s' a' b'. length a' = k
     \<and> foldl (\<lambda>sc i. serve now (J1 @ Some c # J2) i sc) (store, a @ Done r # b) schedule
         = (s', a' @ Done r # b')
     \<and> foldl (\<lambda>sc i. serve now (J1 @ J2) i sc) (store, a @ b) (without k schedule)
         = (s', a' @ b')"
  using k(2)
proof (induction schedule arbitrary: store a b)
  case Nil
  then show ?case
    by (intro exI [of _ store] exI [of _ a] exI [of _ b]) (simp add: without_def)
next
  case (Cons i schedule)
  show ?case
  proof (cases "i = k")
    case True
    with serve_insert [OF k(1) Cons.prems, of now c J2 i store r b] Cons.IH [OF Cons.prems, of store b]
    show ?thesis by (simp add: without_def)
  next
    case False
    let ?j = "if k < i then i - 1 else i"
    obtain s1 cs1 where s: "serve now (J1 @ J2) ?j (store, a @ b) = (s1, cs1)"
      by (cases "serve now (J1 @ J2) ?j (store, a @ b)")
    have l: "length cs1 = length (a @ b)"
      using serve_length [of now "J1 @ J2" ?j "(store, a @ b)"] by (simp add: s)
    with Cons.prems have la: "length (take k cs1) = k" by simp
    have big: "serve now (J1 @ Some c # J2) i (store, a @ Done r # b)
                 = (s1, take k cs1 @ Done r # drop k cs1)"
      using serve_insert [OF k(1) Cons.prems, of now c J2 i store r b] False by (simp add: s)
    from Cons.IH [OF la, of s1 "drop k cs1"] False show ?thesis
      by (simp add: big without_def s)
  qed
qed

lemma those_settle_append:
  "those (map settle (xs @ ys))
     = (case those (map settle xs) of None \<Rightarrow> None
        | Some rx \<Rightarrow> (case those (map settle ys) of None \<Rightarrow> None | Some ry \<Rightarrow> Some (rx @ ry)))"
  by (induction xs) (auto split: option.splits)

text \<open>The statistics with and without one failure, result by result.\<close>

lemma count_result_level:
  assumes "st_created st = st_created st'" "st_updated st = st_updated st'"
    "st_failed st = st_failed st'" "st_errors st = st_errors st'"
  shows "st_created (count_result st r) = st_created (count_result st' r)
     \<and> st_updated (count_result st r) = st_updated (count_result st' r)
     \<and> st_failed (count_result st r) = st_failed (count_result st' r)
     \<and> st_errors (count_result st r) = st_errors (count_result st' r)"
  using assms by (auto simp: count_result_def split: settled.splits option.splits)

lemma count_results_level:
  assumes "st_created st = st_created st'" "st_updated st = st_updated st'"
    "st_failed st = st_failed st'" "st_errors st = st_errors st'"
  shows "st_created (foldl count_result st rs) = st_created (foldl count_result st' rs)
     \<and> st_updated (foldl count_result st rs) = st_updated (foldl count_result st' rs)
     \<and> st_failed (foldl count_result st rs) = st_failed (foldl count_result st' rs)
     \<and> st_errors (foldl count_result st rs) = st_errors (foldl count_result st' rs)"
  using assms
proof (induction rs arbitrary: st st')
  case Nil
  then show ?case by simp
next
  case (Cons r rs)
  from count_result_level [OF Cons.prems, of r] Cons.IH [of "count_result st r" "count_result st' r"]
  show ?case by simp
qed

lemma count_result_ahead:
  assumes "st_created st = st_created st'" "st_updated st = st_updated st'"
    "st_failed st = Suc (st_failed st')"
    "st_errors st = e1 @ e # e2" "st_errors st' = e1 @ e2"
  shows "\<exists>e3. st_created (count_result st r) = st_created (count_result st' r)
     \<and> st_updated (count_result st r) = st_updated (count_result st' r)
     \<and> st_failed (count_result st r) = Suc (st_failed (count_result st' r))
     \<and> st_errors (count_result st r) = e1 @ e # e3
     \<and> st_errors (count_result st' r) = e1 @ e3"
  using assms by (auto simp: count_result_def split: settled.splits option.splits)

lemma count_results_ahead:
  assumes "st_created st = st_created st'" "st_updated st = st_updated st'"
    "st_failed st = Suc (st_failed st')"
    "st_errors st = e1 @ e # e2" "st_errors st' = e1 @ e2"
  shows "\<exists>e3. st_created (foldl count_result st rs) = st_created (foldl count_result st' rs)
     \<and> st_updated (foldl count_result st rs) = st_updated (foldl count_result st' rs)
     \<and> st_failed (foldl count_result st rs) = Suc (st_failed (foldl count_result st' rs))
     \<and> st_errors (foldl count_result st rs) = e1 @ e # e3
     \<and> st_errors (foldl count_result st' rs) = e1 @ e3"
  using assms
proof (induction rs arbitrary: st st' e2)
  case Nil
  then show ?case by simp
next
  case (Cons r rs)
  from count_result_ahead [OF Cons.prems, of r] obtain e3
    where "st_created (count_result st r) = st_created (count_result st' r)"
      "st_updated (count_result st r) = st_updated (count_result st' r)"
      "st_failed (count_result st r) = Suc (st_failed (count_result st' r))"
      "st_errors (count_result st r) = e1 @ e # e3"
      "st_errors (count_result st' r) = e1 @ e3"
    by blast
  from Cons.IH [OF this] show ?case by simp
qed

lemma count_results_insert:
  "\<exists>e1 e2.
     st_created (count_results n (ra @ Fulfilled (failed_with x) # rb))
       = st_created (count_results m (ra @ rb))
   \<and> st_updated (count_results n (ra @ Fulfilled (failed_with x) # rb))
       = st_updated (count_results m (ra @ rb))
   \<and> st_failed (count_results n (ra @ Fulfilled (failed_with x) # rb))
       = Suc (st_failed (count_results m (ra @ rb)))
   \<and> st_errors (count_results n (ra @ Fulfilled (failed_with x) # rb)) = e1 @ Reported x # e2
   \<and> st_errors (count_results m (ra @ rb)) = e1 @ e2"
proof -
  let ?s = "\<lambda>n. \<lparr> st_total = n, st_created = 0, st_updated = 0, st_failed = 0, st_errors = [] \<rparr>"
  let ?a = "foldl count_result (?s n) ra" and ?a' = "foldl count_result (?s m) ra"
  have lv: "st_created ?a = st_created ?a'" "st_updated ?a = st_updated ?a'"
    "st_failed ?a = st_failed ?a'" "st_errors ?a = st_errors ?a'"
    using count_results_level [of "?s n" "?s m" ra] by simp_all
  let ?f = "count_result ?a (Fulfilled (failed_with x))"
  have ah: "st_created ?f = st_created ?a'" "st_updated ?f = st_updated ?a'"
    "st_failed ?f = Suc (st_failed ?a')" "st_errors ?f = st_errors ?a' @ Reported x # []"
    "st_errors ?a' = st_errors ?a' @ []"
    using lv by (simp_all add: count_result_def failed_with_def)
  from count_results_ahead [OF ah, of rb] show ?thesis
    by (auto simp: count_results_def)
qed

lemma count_results_total: "st_total (count_results n rs) = n"
proof -
  have "st_total (foldl count_result st rs) = st_total st" for st
    by (induction rs arbitrary: st)
       (auto simp: count_result_def split: settled.splits option.splits)
  then show ?thesis by (simp add: count_results_def)
qed

text \<open>
  Claim C7, as the code has it. For every candidate missing one of the four
  identity-bearing properties, \<open>processJob\<close> resolves to \<open>failed\<close> with the error of its own
  check and leaves the store as it is. In a batch such a failure is isolated: whatever
  the other candidates are and in whatever order the store serves the calls to their
  end, the batch resolves with the store, the \<open>created\<close> and \<open>updated\<close> counts and the
  errors that the batch of the other candidates alone has under the same order, and with
  one more failure, for the missing properties. So when none of the others fails, the
  batch reports them all as created or updated, and exactly one failure.
\<close>

theorem batch_isolation:
  "(missing_required jobData \<longrightarrow>
      processJob now jobData store = (failed_with Missing_required_fields, store))
   \<and> (missing_required c \<and> serves_all schedule (length (xs @ Some c # ys)) \<longrightarrow>
        (\<exists>st st' store'.
           batchProcessJobs now schedule (xs @ Some c # ys) store = Some (st, store')
           \<and> batchProcessJobs now (without (length xs) schedule) (xs @ ys) store
               = Some (st', store')
           \<and> st_total st = length (xs @ Some c # ys)
           \<and> st_total st' = length (xs @ ys)
           \<and> st_created st = st_created st'
           \<and> st_updated st = st_updated st'
           \<and> st_failed st = Suc (st_failed st')
           \<and> (\<exists>e1 e2. st_errors st = e1 @ Reported Missing_required_fields # e2
                      \<and> st_errors st' = e1 @ e2)
           \<and> st_created st + st_updated st + st_failed st = st_total st
           \<and> (st_failed st' = 0 \<longrightarrow>
                 st_created st + st_updated st = length (xs @ ys) \<and> st_failed st = 1)))"
proof (intro conjI impI)
  assume "missing_required jobData"
  then show "processJob now jobData store = (failed_with Missing_required_fields, store)"
    by (simp add: processJob_def processJob_find_def)
next
  assume "missing_required c \<and> serves_all schedule (length (xs @ Some c # ys))"
  then have m: "missing_required c" and sv: "serves_all schedule (length (xs @ Some c # ys))"
    by simp_all
  let ?M = "failed_with Missing_required_fields"
  let ?big = "xs @ Some c # ys" and ?small = "xs @ ys"
  have st: "start_calls ?big = start_calls xs @ Done ?M # start_calls ys"
    "start_calls ?small = start_calls xs @ start_calls ys"
    using m by (simp_all add: start_calls_def)
  have lx: "length xs = length xs" "length (start_calls xs) = length xs"
    by (simp_all add: start_calls_def)
  from serve_all_insert [OF lx, of now c ys store ?M "start_calls ys" schedule]
  obtain s' a' b' where a': "length a' = length xs"
    and big: "serve_all now ?big schedule store = (s', a' @ Done ?M # b')"
    and small: "serve_all now ?small (without (length xs) schedule) store = (s', a' @ b')"
    by (auto simp: serve_all_def st)
  have sv': "serves_all schedule (length ?big)" using sv by simp
  note fin = serve_all_done [OF sv' big]
  from settle_all [OF fin(2) fin(3)] obtain rs
    where rs: "those (map settle (a' @ Done ?M # b')) = Some rs"
      "length rs = length (a' @ Done ?M # b')"
      "list_all (\<lambda>s. case s of Fulfilled r \<Rightarrow> structured r | Rejected e \<Rightarrow> True) rs"
    by blast
  from rs(1) those_settle_append [of a' "Done ?M # b'"]
  obtain ra rb where ra: "those (map settle a') = Some ra"
    and rb: "those (map settle b') = Some rb"
    and rsd: "rs = ra @ Fulfilled ?M # rb"
    by (auto simp: settle_def split: option.splits)
  have rs': "those (map settle (a' @ b')) = Some (ra @ rb)"
    using those_settle_append [of a' b'] by (simp add: ra rb)
  let ?n = "length (xs @ Some c # ys)" and ?m = "length (xs @ ys)"
  let ?st = "count_results ?n (ra @ Fulfilled ?M # rb)" and ?st' = "count_results ?m (ra @ rb)"
  have B: "batchProcessJobs now schedule (xs @ Some c # ys) store = Some (?st, s')"
    using big rs(1) by (simp add: batchProcessJobs_def rsd)
  have S: "batchProcessJobs now (without (length xs) schedule) (xs @ ys) store
             = Some (?st', s')"
    using small rs' by (simp add: batchProcessJobs_def)
  from count_results_insert [of ?n ra Missing_required_fields rb ?m] obtain e1 e2
    where r: "st_created ?st = st_created ?st'" "st_updated ?st = st_updated ?st'"
      "st_failed ?st = Suc (st_failed ?st')"
      "st_errors ?st = e1 @ Reported Missing_required_fields # e2" "st_errors ?st' = e1 @ e2"
    by blast
  have t: "st_total ?st = ?n" "st_total ?st' = ?m" by (rule count_results_total)+
  from count_results_structured [OF rs(3) [unfolded rsd],
      of "\<lparr> st_total = ?n, st_created = 0, st_updated = 0, st_failed = 0, st_errors = [] \<rparr>"]
    rs(2) fin(1)
  have sum: "st_created ?st + st_updated ?st + st_failed ?st = ?n"
    by (simp add: count_results_def rsd)
  have last: "st_failed ?st' = 0 \<longrightarrow>
                 st_created ?st + st_updated ?st = length (xs @ ys) \<and> st_failed ?st = 1"
    using sum r(3) by auto
  from r(4,5) have er: "\<exists>e1 e2. st_errors ?st = e1 @ Reported Missing_required_fields # e2
                      \<and> st_errors ?st' = e1 @ e2"
    by blast
  show "\<exists>st st' store'.
           batchProcessJobs now schedule (xs @ Some c # ys) store = Some (st, store')
           \<and> batchProcessJobs now (without (length xs) schedule) (xs @ ys) store
               = Some (st', store')
           \<and> st_total st = length (xs @ Some c # ys)
           \<and> st_total st' = length (xs @ ys)
           \<and> st_created st = st_created st'
           \<and> st_updated st = st_updated st'
           \<and> st_failed st = Suc (st_failed st')
           \<and> (\<exists>e1 e2. st_errors st = e1 @ Reported Missing_required_fields # e2
                      \<and> st_errors st' = e1 @ e2)
           \<and> st_created st + st_updated st + st_failed st = st_total st
           \<and> (st_failed st' = 0 \<longrightarrow>
                 st_created st + st_updated st = length (xs @ ys) \<and> st_failed st = 1)"
    using B S t r(1-3) er sum last
    by (intro exI [of _ ?st] exI [of _ ?st'] exI [of _ s']) (simp only: simp_thms)
qed


text \<open>
  The same at a concrete input: a batch of ten candidates, the fourth without a company,
  when the store answers every query before the first save. Against the empty store the
  nine others succeed and nine documents are stored; against a store that holds a
  document of the first candidate, eight are created and one is updated.
\<close>

theorem batch_isolation_witness:
  "missing_required cand_nocompany
   \<and> processJob 5 cand_nocompany [doc_1] = (failed_with Missing_required_fields, [doc_1])
   \<and> serves_all (queries_first 10) (length batch10)
   \<and> (\<exists>st store'. batchProcessJobs 5 (queries_first 10) (map Some batch10) [] = Some (st, store')
         \<and> st_total st = 10 \<and> st_created st + st_updated st = 9 \<and> st_failed st = 1
         \<and> length store' = 9)
   \<and> map_option fst (batchProcessJobs 5 (queries_first 10) (map Some batch10)
                        [new_Job 1 1 (cand_k 0)])
       = Some \<lparr> st_total = 10, st_created = 8, st_updated = 1, st_failed = 1,
                st_errors = [Reported Missing_required_fields] \<rparr>"
proof -
  let ?xs = "map Some (map cand_k [0..<3])" and ?ys = "map Some (map cand_k [4..<10])"
  have m: "missing_required cand_nocompany" by code_simp
  have b: "map Some batch10 = ?xs @ Some cand_nocompany # ?ys" by (simp add: batch10_def)
  have lb: "length batch10 = length (?xs @ Some cand_nocompany # ?ys)" by (simp add: batch10_def)
  have sv: "serves_all (queries_first 10) (length (?xs @ Some cand_nocompany # ?ys))" by code_simp
  have l: "length (?xs @ Some cand_nocompany # ?ys) = 10" "length (?xs @ ?ys) = 9" by simp_all
  have sm: "map_option (\<lambda>r. (st_failed (fst r), length (snd r)))
              (batchProcessJobs 5 (without (length ?xs) (queries_first 10))
                 (?xs @ ?ys) []) = Some (0, 9)"
    by code_simp
  note th = batch_isolation [where now = 5 and c = cand_nocompany and xs = ?xs and ys = ?ys
      and schedule = "queries_first 10"]
  from th [where jobData = cand_nocompany and store = "[doc_1]", THEN conjunct1, rule_format, OF m]
  have 1: "processJob 5 cand_nocompany [doc_1] = (failed_with Missing_required_fields, [doc_1])" .
  from th [where store = "[]", THEN conjunct2, rule_format, OF conjI [OF m sv]]
  obtain st st' store'
    where *: "batchProcessJobs 5 (queries_first 10) (?xs @ Some cand_nocompany # ?ys) []
                  = Some (st, store')
           \<and> batchProcessJobs 5 (without (length ?xs) (queries_first 10))
                    (?xs @ ?ys) [] = Some (st', store')
           \<and> st_total st = length (?xs @ Some cand_nocompany # ?ys)
           \<and> st_total st' = length (?xs @ ?ys)
           \<and> st_created st = st_created st'
           \<and> st_updated st = st_updated st'
           \<and> st_failed st = Suc (st_failed st')
           \<and> (\<exists>e1 e2. st_errors st = e1 @ Reported Missing_required_fields # e2
                      \<and> st_errors st' = e1 @ e2)
           \<and> st_created st + st_updated st + st_failed st = st_total st
           \<and> (st_failed st' = 0 \<longrightarrow>
                 st_created st + st_updated st = length (?xs @ ?ys) \<and> st_failed st = 1)"
    by (elim exE) (rule that)
  from * have big: "batchProcessJobs 5 (queries_first 10)
                      (?xs @ Some cand_nocompany # ?ys) [] = Some (st, store')"
    by (rule conjunct1)
  from * have small: "batchProcessJobs 5 (without (length ?xs) (queries_first 10))
                    (?xs @ ?ys) [] = Some (st', store')"
    by (rule conjunct2 [THEN conjunct1])
  from * have t: "st_total st = length (?xs @ Some cand_nocompany # ?ys)"
    by (rule conjunct2 [THEN conjunct2, THEN conjunct1])
  from * have last: "st_failed st' = 0 \<longrightarrow>
                   st_created st + st_updated st = length (?xs @ ?ys) \<and> st_failed st = 1"
    by (rule conjunct2 [THEN conjunct2, THEN conjunct2, THEN conjunct2, THEN conjunct2,
          THEN conjunct2, THEN conjunct2, THEN conjunct2, THEN conjunct2])
  from sm small have "st_failed st' = 0" "length store' = 9" by simp_all
  with big t last
  have 2: "\<exists>st store'. batchProcessJobs 5 (queries_first 10) (map Some batch10) []
                          = Some (st, store')
         \<and> st_total st = 10 \<and> st_created st + st_updated st = 9 \<and> st_failed st = 1
         \<and> length store' = 9"
    unfolding b l by (intro exI [of _ st] exI [of _ store']) simp
  have 3: "map_option fst (batchProcessJobs 5 (queries_first 10) (map Some batch10)
                        [new_Job 1 1 (cand_k 0)])
       = Some \<lparr> st_total = 10, st_created = 8, st_updated = 1, st_failed = 1,
                st_errors = [Reported Missing_required_fields] \<rparr>"
    by code_simp
  from m 1 sv [folded lb] 2 3 show ?thesis by (intro conjI)
qed

text \<open>
  A batch of ten candidates of which exactly one is missing a required property, the
  company, and another, with all four, has an empty description: eight documents are
  created and two calls fail.
\<close>

theorem batch_isolation_counterexample:
  "map missing_required batch10_nodesc
     = [False, False, False, True, False, False, False, False, False, False]
   \<and> map (\<lambda>c. falsy (company c)) batch10_nodesc
     = [False, False, False, True, False, False, False, False, False, False]
   \<and> map_option fst (batchProcessJobs 5 (one_by_one 10) (map Some batch10_nodesc) [])
       = Some \<lparr> st_total = 10, st_created = 8, st_updated = 0, st_failed = 2,
                st_errors = [Reported Missing_required_fields,
                             Reported (Validation_failed [''description''])] \<rparr>"
  by code_simp

end
